theory Spec2Isabelle
  imports Main "HOL-Library.Sublist" "HOL-Library.AList" "HOL-Library.Char_ord"
    "HOL-Library.List_Lexorder" "HOL-Library.Multiset"
begin

section \<open>Data model of \<^verbatim>\<open>sandwine/_main.py\<close>\<close>

text \<open>
  Python strings are modelled as \<^typ>\<open>string\<close>; their order (\<^verbatim>\<open>sorted\<close> on \<^verbatim>\<open>str\<close>
  keys) is the lexicographic order on characters that the library theories \<open>List_Lexorder\<close>
  and \<open>Char_ord\<close> give to \<^typ>\<open>string\<close>.
\<close>

datatype AccessMode = READ_ONLY | READ_WRITE

datatype MountMode = DEVTMPFS | BIND_RO | BIND_RW | BIND_DEV | TMPFS | PROC

text \<open>
  \<^verbatim>\<open>X11Mode\<close> is imported from \<^verbatim>\<open>sandwine._x11\<close>; its members are the ones the
  argument parser of \<^verbatim>\<open>_main.py\<close> names.
\<close>

datatype X11Mode = NONE | AUTO | NXAGENT | XEPHYR | XNEST | XPRA | XVFB | HOST

record MountTask =
  mode :: MountMode
  target :: string
  source :: "string option"
  required :: bool

text \<open>The dataclass constructor with its defaults \<^verbatim>\<open>source=None, required=True\<close>.\<close>

definition task :: "MountMode \<Rightarrow> string \<Rightarrow> MountTask" where
  "task m t = \<lparr>mode = m, target = t, source = None, required = True\<rparr>"

text \<open>
  Exceptions that leave a function. \<^verbatim>\<open>ValueError\<close> carries the offending candidate
  (the source formats it into the message), \<^verbatim>\<open>SystemExit\<close> the argument of \<^verbatim>\<open>sys.exit\<close>.
\<close>

datatype error =
    ValueError string
  | KeyError string
  | SystemExit int
  | AssertionError
  | FileNotFoundError
  | OSError

text \<open>The namespace that \<^verbatim>\<open>parse_command_line\<close> returns, as \<^verbatim>\<open>create_bwrap_argv\<close> reads it.\<close>

record config =
  argv_0 :: "string option"
  argv_1_plus :: "string list"
  x11 :: X11Mode
  x11_display_number :: int
  network :: bool
  pulseaudio :: bool
  dotwine :: "string option"
  extra_binds :: "string list"
  configure :: bool
  with_pty :: bool
  with_wine :: bool
  second_try :: bool

text \<open>
  Everything the program reads from its surroundings: the \<^verbatim>\<open>os\<close>, \<^verbatim>\<open>os.path\<close>,
  \<^verbatim>\<open>random\<close> and \<^verbatim>\<open>subprocess\<close> calls, and the display collaborator
  \<^verbatim>\<open>sandwine._x11\<close>. \<open>exists\<close> is the only part that the program changes
  (through \<^verbatim>\<open>os.makedirs\<close>); \<open>makedirs_fails\<close> tells for which paths the file
  system refuses that call (a component is a regular file or a dangling link, the user may
  not create the directory, the file system is read-only). \<open>subprocess_call\<close> returns
  \<open>None\<close> where \<^verbatim>\<open>subprocess.call\<close> raises \<^verbatim>\<open>FileNotFoundError\<close>.
\<close>

record host =
  expanduser :: "string \<Rightarrow> string"
  getuid :: nat
  exists :: "string \<Rightarrow> bool"
  makedirs_fails :: "string \<Rightarrow> bool"
  abspath :: "string \<Rightarrow> string"
  realpath :: "string \<Rightarrow> string"
  environ :: "string \<rightharpoonup> string"
  randint :: "nat \<Rightarrow> nat"
  get_unix_socket :: "int \<Rightarrow> string"
  subprocess_call :: "string list \<Rightarrow> int option"
  detect_and_require_nested_x11 :: X11Mode
  find_used :: int
  find_unused :: "int \<Rightarrow> int"

section \<open>String helpers of the Python library\<close>

definition os_sep :: char where
  "os_sep = CHR ''/''"

definition os_pathsep :: char where
  "os_pathsep = CHR '':''"

text \<open>\<^verbatim>\<open>s.rstrip(c)\<close> for a one-character argument.\<close>

definition rstrip :: "char \<Rightarrow> string \<Rightarrow> string" where
  "rstrip c s = rev (dropWhile (\<lambda>x. x = c) (rev s))"

text \<open>\<^verbatim>\<open>s.rsplit(c, 1)\<close> for a string that contains \<open>c\<close>: the parts around the last \<open>c\<close>.\<close>

definition rsplit1 :: "char \<Rightarrow> string \<Rightarrow> string \<times> string" where
  "rsplit1 c s =
     (rev (tl (dropWhile (\<lambda>x. x \<noteq> c) (rev s))), rev (takeWhile (\<lambda>x. x \<noteq> c) (rev s)))"

text \<open>\<^verbatim>\<open>s.split(c)\<close>: one field more than there are separators, empty fields kept.\<close>

fun str_split :: "char \<Rightarrow> string \<Rightarrow> string list" where
  "str_split c [] = [[]]"
| "str_split c (x # xs) =
     (if x = c then [] # str_split c xs
      else (case str_split c xs of w # ws \<Rightarrow> (x # w) # ws | [] \<Rightarrow> [[x]]))"

text \<open>\<^verbatim>\<open>sep.join(xs)\<close>.\<close>

fun join :: "string \<Rightarrow> string list \<Rightarrow> string" where
  "join sep [] = []"
| "join sep [x] = x"
| "join sep (x # y # ys) = x @ sep @ join sep (y # ys)"

text \<open>\<^verbatim>\<open>str(n)\<close> and \<^verbatim>\<open>hex(n)[2:]\<close> for a natural number, \<^verbatim>\<open>str(i)\<close> for an integer.\<close>

fun str_nat :: "nat \<Rightarrow> string" where
  "str_nat n =
     (if n < 10 then [''0123456789'' ! n]
      else str_nat (n div 10) @ [''0123456789'' ! (n mod 10)])"

declare str_nat.simps [simp del]

fun hex_nat :: "nat \<Rightarrow> string" where
  "hex_nat n =
     (if n < 16 then [''0123456789abcdef'' ! n]
      else hex_nat (n div 16) @ [''0123456789abcdef'' ! (n mod 16)])"

declare hex_nat.simps [simp del]

definition str_int :: "int \<Rightarrow> string" where
  "str_int i = (if i < 0 then ''-'' @ str_nat (nat (- i)) else str_nat (nat i))"

text \<open>
  \<^verbatim>\<open>shlex.quote\<close> and \<^verbatim>\<open>shlex.join\<close>: a string of safe characters
  (\<^verbatim>\<open>[A-Za-z0-9_@%+=:,./-]\<close>) is left alone, any other is put in single quotes with
  each single quote (character 39) replaced by quote, double quote, quote, double quote,
  quote.
\<close>

definition safe_char :: "char \<Rightarrow> bool" where
  "safe_char c \<longleftrightarrow>
     c \<in> set ''abcdefghijklmnopqrstuvwxyzABCDEFGHIJKLMNOPQRSTUVWXYZ0123456789_@%+=:,./-''"

definition quote :: "string \<Rightarrow> string" where
  "quote s =
     (if s = [] then [CHR 0x27, CHR 0x27]
      else if list_all safe_char s then s
      else [CHR 0x27]
        @ concat (map (\<lambda>c. if c = CHR 0x27
                            then [CHR 0x27, CHR 0x22, CHR 0x27, CHR 0x22, CHR 0x27]
                            else [c]) s)
        @ [CHR 0x27])"

definition shlex_join :: "string list \<Rightarrow> string" where
  "shlex_join args = join '' '' (map quote args)"

section \<open>\<^verbatim>\<open>ArgvBuilder\<close>\<close>

text \<open>The builder is its list of groups; \<^verbatim>\<open>add\<close> ignores an empty group.\<close>

type_synonym ArgvBuilder = "string list list"

definition add :: "string list \<Rightarrow> ArgvBuilder \<Rightarrow> ArgvBuilder" where
  "add args groups = (if args = [] then groups else groups @ [args])"

definition iter_flat :: "ArgvBuilder \<Rightarrow> string list" where
  "iter_flat groups = concat groups"

section \<open>\<^verbatim>\<open>single_trailing_sep\<close> and \<^verbatim>\<open>parse_path_colon_access\<close>\<close>

definition single_trailing_sep :: "string \<Rightarrow> string" where
  "single_trailing_sep path = rstrip os_sep path @ [os_sep]"

definition parse_path_colon_access :: "string \<Rightarrow> error + (string \<times> AccessMode)" where
  "parse_path_colon_access candidate =
     (if CHR '':'' \<notin> set candidate then Inl (ValueError candidate)
      else (case rsplit1 (CHR '':'') candidate of
        (path, access_mode_candidate) \<Rightarrow>
          if access_mode_candidate = ''ro'' then Inr (path, READ_ONLY)
          else if access_mode_candidate = ''rw'' then Inr (path, READ_WRITE)
          else Inl (ValueError candidate)))"

section \<open>\<^verbatim>\<open>create_bwrap_argv\<close>\<close>

subsection \<open>The host side: \<^verbatim>\<open>os.makedirs\<close>, \<^verbatim>\<open>random_hostname\<close>\<close>

text \<open>
  \<^verbatim>\<open>os.makedirs(path, mode=0o700, exist_ok=True)\<close> raises an \<^verbatim>\<open>OSError\<close> (for the
  empty path always: \<^verbatim>\<open>mkdir('')\<close> fails and \<^verbatim>\<open>''\<close> is no directory; for any other
  path when the file system refuses). Otherwise it creates the leaf and every intermediate
  directory: afterwards \<open>path\<close> exists, and so does each non-empty prefix of it that ends
  before a separator. Other spellings of these directories are left as the host has them.
\<close>

fun intermediate_dirs :: "string \<Rightarrow> string \<Rightarrow> string list" where
  "intermediate_dirs seen [] = []"
| "intermediate_dirs seen (x # xs) =
     (if x = os_sep \<and> seen \<noteq> [] then [seen] else []) @ intermediate_dirs (seen @ [x]) xs"

definition created :: "string \<Rightarrow> host \<Rightarrow> host" where
  "created path h =
     h\<lparr>exists := (\<lambda>q. exists h q \<or> q = path \<or> q \<in> set (intermediate_dirs [] path))\<rparr>"

definition makedirs :: "string \<Rightarrow> host \<Rightarrow> error + host" where
  "makedirs path h =
     (if path = [] \<or> makedirs_fails h path then Inl OSError else Inr (created path h))"

text \<open>
  \<^verbatim>\<open>''.join(hex(random.randint(0, 15))[2:] for _ in range(12))\<close>; \<open>randint h i\<close> is
  the \<open>i\<close>-th draw.
\<close>

definition random_hostname :: "host \<Rightarrow> string" where
  "random_hostname h = concat (map (\<lambda>i. hex_nat (randint h i)) [0..<12])"

subsection \<open>Mount and environment plan (source lines 202 to 281)\<close>

definition baseline_mount_tasks :: "string \<Rightarrow> MountTask list" where
  "baseline_mount_tasks my_home =
     [task TMPFS ''/'',
      task BIND_RO ''/bin'',
      task DEVTMPFS ''/dev'',
      task BIND_DEV ''/dev/dri'',
      task BIND_RO ''/etc'',
      task BIND_RO ''/lib'',
      (task BIND_RO ''/lib32'')\<lparr>required := False\<rparr>,
      task BIND_RO ''/lib64'',
      task PROC ''/proc'',
      task BIND_RO ''/sys'',
      task TMPFS ''/tmp'',
      task BIND_RO ''/usr'',
      task TMPFS my_home]"

definition network_mount_tasks :: "config \<Rightarrow> MountTask list" where
  "network_mount_tasks c =
     (if network c then
        [(task BIND_RO ''/run/NetworkManager/resolv.conf'')\<lparr>required := False\<rparr>,
         (task BIND_RO ''/run/systemd/resolve/stub-resolv.conf'')\<lparr>required := False\<rparr>]
      else [])"

definition pulseaudio_socket :: "host \<Rightarrow> string" where
  "pulseaudio_socket h = ''/run/user/'' @ str_nat (getuid h) @ ''/pulse/native''"

definition pulseaudio_mount_tasks :: "host \<Rightarrow> config \<Rightarrow> MountTask list" where
  "pulseaudio_mount_tasks h c =
     (if pulseaudio c then [task BIND_RW (pulseaudio_socket h)] else [])"

definition x11_unix_socket :: "host \<Rightarrow> config \<Rightarrow> string" where
  "x11_unix_socket h c = get_unix_socket h (x11_display_number c)"

definition x11_mount_tasks :: "host \<Rightarrow> config \<Rightarrow> MountTask list" where
  "x11_mount_tasks h c =
     (if x11 c \<noteq> NONE then [task BIND_RW (x11_unix_socket h c)] else [])"

text \<open>
  The Wine block (lines 254 to 266): the profile-directory task, the value of
  \<^verbatim>\<open>run_winecfg\<close> after it, and the host after a possible \<^verbatim>\<open>os.makedirs\<close>; an
  exception of the parser or of \<^verbatim>\<open>os.makedirs\<close> leaves the function.
\<close>

definition dotwine_step :: "host \<Rightarrow> config \<Rightarrow> error + (MountTask list \<times> bool \<times> host)" where
  "dotwine_step h c =
     (let run_winecfg = (x11 c \<noteq> NONE \<and> (configure c \<or> dotwine c = None));
          dotwine_target_path = expanduser h ''~/.wine''
      in case dotwine c of
        Some d \<Rightarrow>
          (case parse_path_colon_access d of
             Inl e \<Rightarrow> Inl e
           | Inr (dotwine_source_path, dotwine_access) \<Rightarrow>
               let mount_mode = (if dotwine_access = READ_WRITE then BIND_RW else BIND_RO);
                   t = (task mount_mode dotwine_target_path)\<lparr>source := Some dotwine_source_path\<rparr>
               in if \<not> exists h dotwine_source_path
                  then (case makedirs dotwine_source_path h of
                          Inl e \<Rightarrow> Inl e
                        | Inr h' \<Rightarrow> Inr ([t], True, h'))
                  else Inr ([t], run_winecfg, h))
      | None \<Rightarrow> Inr ([task TMPFS dotwine_target_path], run_winecfg, h))"

text \<open>The loop over \<^verbatim>\<open>config.extra_binds\<close> (lines 269 to 272).\<close>

fun extra_bind_tasks :: "host \<Rightarrow> string list \<Rightarrow> error + MountTask list" where
  "extra_bind_tasks h [] = Inr []"
| "extra_bind_tasks h (bind # binds) =
     (case parse_path_colon_access bind of
        Inl e \<Rightarrow> Inl e
      | Inr (mount_target, mount_access) \<Rightarrow>
          let mount_mode = (if mount_access = READ_WRITE then BIND_RW else BIND_RO)
          in (case extra_bind_tasks h binds of
                Inl e \<Rightarrow> Inl e
              | Inr ts \<Rightarrow> Inr (task mount_mode (abspath h mount_target) # ts)))"

definition program_mount_tasks :: "host \<Rightarrow> config \<Rightarrow> MountTask list" where
  "program_mount_tasks h c =
     (case argv_0 c of
        None \<Rightarrow> []
      | Some a \<Rightarrow>
          if os_sep \<in> set a then
            (let real_argv_0 = abspath h a in
             [(task BIND_RO real_argv_0)\<lparr>required := False\<rparr>,
              (task BIND_RO (real_argv_0 @ ''.exe''))\<lparr>required := False\<rparr>,
              (task BIND_RO (real_argv_0 @ ''.EXE''))\<lparr>required := False\<rparr>])
          else [])"

text \<open>
  \<^verbatim>\<open>mount_tasks\<close> as it stands before the sort, with \<^verbatim>\<open>run_winecfg\<close> and the host
  after the Wine block.
\<close>

definition mount_plan :: "host \<Rightarrow> config \<Rightarrow> error + (MountTask list \<times> bool \<times> host)" where
  "mount_plan h c =
     (case dotwine_step h c of
        Inl e \<Rightarrow> Inl e
      | Inr (dotwine_tasks, run_winecfg, h') \<Rightarrow>
          (case extra_bind_tasks h' (extra_binds c) of
             Inl e \<Rightarrow> Inl e
           | Inr binds \<Rightarrow>
               Inr (baseline_mount_tasks (expanduser h ''~'')
                      @ network_mount_tasks c
                      @ pulseaudio_mount_tasks h c
                      @ x11_mount_tasks h c
                      @ dotwine_tasks
                      @ binds
                      @ program_mount_tasks h' c,
                    run_winecfg, h')))"

text \<open>
  \<^verbatim>\<open>env_tasks\<close> before \<^verbatim>\<open>PATH\<close> is assigned: a dictionary, kept as an association list
  in insertion order; \<open>None\<close> is the value of an inherit-if-present variable.
\<close>

definition env_plan :: "host \<Rightarrow> config \<Rightarrow> (string \<times> string option) list" where
  "env_plan h c =
     (let e0 = map (\<lambda>var. (var, None)) [''HOME'', ''TERM'', ''USER'', ''WINEDEBUG''];
          e1 = AList.update ''container'' (Some ''sandwine'') e0;
          e2 = AList.update ''HOSTNAME'' (Some (random_hostname h)) e1;
          e3 = (if pulseaudio c
                then AList.update ''PULSE_SERVER'' (Some (''unix:'' @ pulseaudio_socket h)) e2
                else e2);
          e4 = (if x11 c \<noteq> NONE
                then AList.update ''DISPLAY'' (Some ('':'' @ str_int (x11_display_number c))) e3
                else e3)
      in e4)"

definition unshare_args :: "config \<Rightarrow> string list" where
  "unshare_args c =
     [''--unshare-user'', ''--unshare-all''] @ (if network c then [''--share-net''] else [])"

subsection \<open>Mount stack (lines 287 to 315)\<close>

text \<open>\<^verbatim>\<open>sorted(mount_tasks, key=attrgetter('target'))\<close>: a stable sort on the target string.\<close>

definition sorted_mount_tasks :: "MountTask list \<Rightarrow> MountTask list" where
  "sorted_mount_tasks mount_tasks = sort_key target mount_tasks"

definition is_bind :: "MountMode \<Rightarrow> bool" where
  "is_bind m \<longleftrightarrow> m \<in> {BIND_RO, BIND_RW, BIND_DEV}"

text \<open>\<^verbatim>\<open>mount_task.source\<close> after the default \<^verbatim>\<open>source = target\<close> has been filled in.\<close>

definition source_of :: "MountTask \<Rightarrow> string" where
  "source_of t = (case source t of None \<Rightarrow> target t | Some s \<Rightarrow> s)"

text \<open>
  The condition of line 300: the source is missing on the host and the task is not the
  display socket of an enabled display.
\<close>

definition missing_source :: "host \<Rightarrow> config \<Rightarrow> MountTask \<Rightarrow> bool" where
  "missing_source h c t \<longleftrightarrow>
     \<not> exists h (source_of t) \<and> \<not> (x11 c \<noteq> NONE \<and> target t = x11_unix_socket h c)"

text \<open>
  The body of the loop, for one task: the groups it adds to the builder, or the exit.
  The last branch is the \<^verbatim>\<open>assert False\<close> of line 315.
\<close>

definition mount_task_groups :: "host \<Rightarrow> config \<Rightarrow> MountTask \<Rightarrow> error + ArgvBuilder" where
  "mount_task_groups h c t =
     (if mode t = TMPFS then Inr (add [''--tmpfs'', target t] [])
      else if mode t = DEVTMPFS then Inr (add [''--dev'', target t] [])
      else if mode t = PROC then Inr (add [''--proc'', target t] [])
      else if mode t \<in> {BIND_RO, BIND_RW, BIND_DEV} then
        (if missing_source h c t then
           (if required t then Inl (SystemExit 1) else Inr [])
         else if mode t = BIND_RO then Inr (add [''--ro-bind'', source_of t, target t] [])
         else if mode t = BIND_RW then Inr (add [''--bind'', source_of t, target t] [])
         else if mode t = BIND_DEV then Inr (add [''--dev-bind'', source_of t, target t] [])
         else Inr [])
      else Inl AssertionError)"

text \<open>The loop: the groups of the tasks in order, up to the first exit.\<close>

fun mount_stack :: "host \<Rightarrow> config \<Rightarrow> MountTask list \<Rightarrow> error + ArgvBuilder" where
  "mount_stack h c [] = Inr []"
| "mount_stack h c (t # ts) =
     (case mount_task_groups h c t of
        Inl e \<Rightarrow> Inl e
      | Inr gs \<Rightarrow> (case mount_stack h c ts of Inl e \<Rightarrow> Inl e | Inr gs' \<Rightarrow> Inr (gs @ gs')))"

subsection \<open>Search path (lines 317 to 320)\<close>

text \<open>
  The test inside \<^verbatim>\<open>any(...)\<close> for one candidate and one task: prefix comparison of
  the two paths with a single trailing separator, and a bind mode.
\<close>

definition contained_in :: "string \<Rightarrow> MountTask \<Rightarrow> bool" where
  "contained_in candidate_path t \<longleftrightarrow>
     prefix (single_trailing_sep (target t)) (single_trailing_sep candidate_path)
     \<and> mode t \<in> {BIND_RO, BIND_RW, BIND_DEV}"

definition candidate_paths :: "string \<Rightarrow> string list" where
  "candidate_paths path_value = str_split os_pathsep path_value @ [''/usr/lib/wine'']"

definition available_paths :: "host \<Rightarrow> MountTask list \<Rightarrow> string list \<Rightarrow> string list" where
  "available_paths h sorted_tasks candidates =
     filter (\<lambda>candidate_path. list_ex (contained_in candidate_path) (rev sorted_tasks))
       (map (realpath h) candidates)"

text \<open>The value assigned to \<^verbatim>\<open>env_tasks['PATH']\<close>; \<^verbatim>\<open>os.environ['PATH']\<close> raises if unset.\<close>

definition resolved_PATH :: "host \<Rightarrow> MountTask list \<Rightarrow> error + string" where
  "resolved_PATH h sorted_tasks =
     (case environ h ''PATH'' of
        None \<Rightarrow> Inl (KeyError ''PATH'')
      | Some path_value \<Rightarrow>
          Inr (join [os_pathsep] (available_paths h sorted_tasks (candidate_paths path_value))))"

subsection \<open>Environment (lines 322 to 329)\<close>

text \<open>The body of the loop for one item of \<^verbatim>\<open>env_tasks\<close>.\<close>

definition setenv_group :: "host \<Rightarrow> string \<times> string option \<Rightarrow> ArgvBuilder" where
  "setenv_group h item =
     (case item of (env_var, env_value) \<Rightarrow>
        (case env_value of
           None \<Rightarrow>
             (case environ h env_var of
                None \<Rightarrow> []
              | Some v \<Rightarrow> add [''--setenv'', env_var, v] [])
         | Some v \<Rightarrow> add [''--setenv'', env_var, v] []))"

definition setenv_groups :: "host \<Rightarrow> (string \<times> string option) list \<Rightarrow> ArgvBuilder" where
  "setenv_groups h env_tasks = concat (map (setenv_group h) (sort_key fst env_tasks))"

subsection \<open>Wrappers and inner command (lines 331 to 355)\<close>

definition wineserver_wrapper :: "string list" where
  \<open>wineserver_wrapper =
     [''sh'', ''-c'', ''wineserver -p0 && "$0" "$@" ; ret=$? ; wineserver -k ; exit ${ret}'']\<close>

definition winecfg_wrapper :: "string list" where
  \<open>winecfg_wrapper = [''sh'', ''-c'', ''winecfg && exec "$0" "$@"'']\<close>

definition second_try_wrapper :: "string list" where
  \<open>second_try_wrapper = [''sh'', ''-c'', ''"$0" "$@" || exec "$0" "$@"'']\<close>

definition wrapper_groups :: "config \<Rightarrow> bool \<Rightarrow> ArgvBuilder" where
  "wrapper_groups c run_winecfg =
     (if with_wine c then [wineserver_wrapper] else [])
     @ (if run_winecfg \<and> with_wine c then [winecfg_wrapper] else [])
     @ (if second_try c then [second_try_wrapper] else [])"

definition inner_groups :: "config \<Rightarrow> ArgvBuilder" where
  "inner_groups c =
     (case argv_0 c of
        Some a \<Rightarrow>
          (let inner_argv = (if with_wine c then [''wine'', a] else [a]) @ argv_1_plus c
           in if with_pty c
              then add [''script'', ''-e'', ''-q'', ''-c'', ''exec '' @ shlex_join inner_argv,
                        ''/dev/null''] []
              else add inner_argv [])
      | None \<Rightarrow> add [''true''] [])"

subsection \<open>The whole function\<close>

text \<open>
  The groups of the returned builder, with the host as \<^verbatim>\<open>os.makedirs\<close> left it. An
  exception leaves the function at the place where the source raises it: the Wine block
  (parser, \<^verbatim>\<open>os.makedirs\<close>), the extra binds, the mount stack, the read of \<^verbatim>\<open>PATH\<close>,
  in this order.
\<close>

definition create_bwrap_argv :: "host \<Rightarrow> config \<Rightarrow> error + (ArgvBuilder \<times> host)" where
  "create_bwrap_argv h c =
     (case mount_plan h c of
        Inl e \<Rightarrow> Inl e
      | Inr (mount_tasks, run_winecfg, h') \<Rightarrow>
          (case mount_stack h' c (sorted_mount_tasks mount_tasks) of
             Inl e \<Rightarrow> Inl e
           | Inr mount_groups \<Rightarrow>
               (case resolved_PATH h' (sorted_mount_tasks mount_tasks) of
                  Inl e \<Rightarrow> Inl e
                | Inr path_value \<Rightarrow>
                    Inr ([[''bwrap''], [''--disable-userns''], [''--die-with-parent''],
                          [''--hostname'', random_hostname h]]
                         @ add (unshare_args c) []
                         @ mount_groups
                         @ [[''--clearenv'']]
                         @ setenv_groups h'
                             (AList.update ''PATH'' (Some path_value) (env_plan h c))
                         @ [[''--'']]
                         @ wrapper_groups c run_winecfg
                         @ inner_groups c,
                         h'))))"

section \<open>\<^verbatim>\<open>require_recent_bubblewrap\<close> and \<^verbatim>\<open>main\<close>\<close>

text \<open>
  What a run leaves behind: the exit status of the process and the argument vectors
  given to \<^verbatim>\<open>subprocess.call\<close>, in order.
\<close>

record outcome =
  exit_code :: int
  calls :: "string list list"

text \<open>
  The exit status of the process for \<^verbatim>\<open>sys.exit(n)\<close>: the low eight bits of \<open>n\<close>, so
  that the return code \<open>-9\<close> of a command killed by signal 9 gives 247.
\<close>

definition sys_exit :: "int \<Rightarrow> int" where
  "sys_exit n = n mod 256"

text \<open>
  The exit status when an exception leaves \<^verbatim>\<open>main\<close>: that of \<^verbatim>\<open>sys.exit\<close> for
  \<^verbatim>\<open>SystemExit\<close>, and 1 for every other exception, which the interpreter reports
  with a traceback.
\<close>

definition exit_status :: "error \<Rightarrow> int" where
  "exit_status e = (case e of SystemExit n \<Rightarrow> sys_exit n | _ \<Rightarrow> 1)"

definition bwrap_probe :: "string list" where
  "bwrap_probe = [''bwrap'', ''--disable-userns'', ''--help'']"

definition require_recent_bubblewrap :: "host \<Rightarrow> error + unit" where
  "require_recent_bubblewrap h =
     (case subprocess_call h bwrap_probe of
        None \<Rightarrow> Inl FileNotFoundError
      | Some rc \<Rightarrow> if rc \<noteq> 0 then Inl (SystemExit 1) else Inr ())"

text \<open>The display block of \<^verbatim>\<open>main\<close> (lines 378 to 390), which fills in the display number.\<close>

definition select_display :: "host \<Rightarrow> config \<Rightarrow> config" where
  "select_display h c =
     (if x11 c \<noteq> NONE then
        (let c1 = (if x11 c = AUTO then c\<lparr>x11 := detect_and_require_nested_x11 h\<rparr> else c)
         in if x11 c1 = HOST then c1\<lparr>x11_display_number := find_used h\<rparr>
            else (let minimum = (if x11 c1 = XPRA then 10 else 0)
                  in c1\<lparr>x11_display_number := find_unused h minimum\<rparr>))
      else c)"

text \<open>
  \<^verbatim>\<open>main\<close> from the parsed configuration on. The display session around the call and
  the interrupt handler are left out: no signal arrives in this model.
\<close>

definition main :: "host \<Rightarrow> config \<Rightarrow> outcome" where
  "main h config0 =
     (case require_recent_bubblewrap h of
        Inl e \<Rightarrow> \<lparr>exit_code = exit_status e, calls = [bwrap_probe]\<rparr>
      | Inr _ \<Rightarrow>
          (let config = select_display h config0 in
           case create_bwrap_argv h config of
             Inl e \<Rightarrow> \<lparr>exit_code = exit_status e, calls = [bwrap_probe]\<rparr>
           | Inr (argv_builder, h') \<Rightarrow>
               (let argv = iter_flat argv_builder in
                case subprocess_call h' argv of
                  None \<Rightarrow> \<lparr>exit_code = sys_exit 127, calls = [bwrap_probe, argv]\<rparr>
                | Some rc \<Rightarrow> \<lparr>exit_code = sys_exit rc, calls = [bwrap_probe, argv]\<rparr>)))"

section \<open>Notions used to state the properties\<close>

text \<open>
  The groups that the loop body leaves in the builder for one task (none when it exits),
  and the two outcomes of the missing-source test of lines 300 to 306.
\<close>

definition rendered :: "host \<Rightarrow> config \<Rightarrow> MountTask \<Rightarrow> ArgvBuilder" where
  "rendered h c t = (case mount_task_groups h c t of Inl e \<Rightarrow> [] | Inr gs \<Rightarrow> gs)"

definition aborts :: "host \<Rightarrow> config \<Rightarrow> MountTask \<Rightarrow> bool" where
  "aborts h c t \<longleftrightarrow>
     mode t \<in> {BIND_RO, BIND_RW, BIND_DEV} \<and> missing_source h c t \<and> required t"

definition dropped :: "host \<Rightarrow> config \<Rightarrow> MountTask \<Rightarrow> bool" where
  "dropped h c t \<longleftrightarrow>
     mode t \<in> {BIND_RO, BIND_RW, BIND_DEV} \<and> missing_source h c t \<and> \<not> required t"

text \<open>
  \<^verbatim>\<open>mount_tasks\<close> before the sort and the groups of the returned builder, both empty
  when an exception leaves the function; the groups added before the mount stack.
\<close>

definition planned_mount_tasks :: "host \<Rightarrow> config \<Rightarrow> MountTask list" where
  "planned_mount_tasks h c = (case mount_plan h c of Inl e \<Rightarrow> [] | Inr (ts, rw, h') \<Rightarrow> ts)"

definition final_argv :: "host \<Rightarrow> config \<Rightarrow> ArgvBuilder" where
  "final_argv h c = (case create_bwrap_argv h c of Inl e \<Rightarrow> [] | Inr (gs, h') \<Rightarrow> gs)"

definition argv_head :: "host \<Rightarrow> config \<Rightarrow> ArgvBuilder" where
  "argv_head h c =
     [[''bwrap''], [''--disable-userns''], [''--die-with-parent''],
      [''--hostname'', random_hostname h]] @ add (unshare_args c) []"


definition groups_at :: "string \<Rightarrow> ArgvBuilder \<Rightarrow> ArgvBuilder" where
  "groups_at k gs = filter (\<lambda>g. last g = k) gs"

text \<open>
  The value of \<^verbatim>\<open>run_winecfg\<close> after the Wine block, and \<^verbatim>\<open>env_tasks\<close> as the
  environment loop reads it, with \<^verbatim>\<open>PATH\<close> assigned.
\<close>

definition run_winecfg :: "host \<Rightarrow> config \<Rightarrow> bool" where
  "run_winecfg h c = (case dotwine_step h c of Inl e \<Rightarrow> False | Inr (ts, rw, h') \<Rightarrow> rw)"

definition final_env_tasks :: "host \<Rightarrow> config \<Rightarrow> (string \<times> string option) list" where
  "final_env_tasks h c =
     (case mount_plan h c of
        Inl e \<Rightarrow> env_plan h c
      | Inr (ts, rw, h') \<Rightarrow>
          (case resolved_PATH h' (sorted_mount_tasks ts) of
             Inl e \<Rightarrow> env_plan h c
           | Inr pv \<Rightarrow> AList.update ''PATH'' (Some pv) (env_plan h c)))"

section \<open>A concrete host and configuration\<close>

text \<open>
  A host without \<^verbatim>\<open>/lib32\<close> and without \<^verbatim>\<open>/missing/path\<close>, where
  \<^verbatim>\<open>/etc/passwd\<close> is a regular file (nothing exists or can be created under it), with
  home directory \<^verbatim>\<open>/home/u\<close>, where paths are already
  absolute and canonical, and the plain invocation \<^verbatim>\<open>sandwine\<close> with no option and no
  program. The theorems below are evaluated on variations of them.
\<close>

definition example_host :: host where
  "example_host =
     \<lparr>expanduser = (\<lambda>p. ''/home/u'' @ tl p),
      getuid = 1000,
      exists = (\<lambda>p. p \<noteq> [] \<and> p \<noteq> ''/lib32'' \<and> p \<noteq> ''/missing/path''
                  \<and> p \<noteq> ''/etc/passwd/profile''),
      makedirs_fails = (\<lambda>p. p = ''/etc/passwd/profile''),
      abspath = (\<lambda>p. p),
      realpath = (\<lambda>p. p),
      environ = [''PATH'' \<mapsto> ''/lib32/bin:/opt/bin''],
      randint = (\<lambda>i. 10),
      get_unix_socket = (\<lambda>n. ''/tmp/.X11-unix/X'' @ str_int n),
      subprocess_call = (\<lambda>argv. Some 0),
      detect_and_require_nested_x11 = XEPHYR,
      find_used = 0,
      find_unused = (\<lambda>minimum. minimum)\<rparr>"

definition example_config :: config where
  "example_config =
     \<lparr>argv_0 = None, argv_1_plus = [], x11 = NONE, x11_display_number = 0,
      network = False, pulseaudio = False, dotwine = None, extra_binds = [],
      configure = False, with_pty = True, with_wine = True, second_try = False\<rparr>"

section \<open>Parsing \<^verbatim>\<open>PATH:{ro,rw}\<close>\<close>

lemma rsplit1_append:
  assumes "c \<notin> set q"
  shows "rsplit1 c (p @ c # q) = (p, q)"
proof -
  have tw: "takeWhile (\<lambda>x. x \<noteq> c) (rev q @ c # rev p) = rev q"
    using assms by (subst takeWhile_append2) auto
  have dw: "dropWhile (\<lambda>x. x \<noteq> c) (rev q @ c # rev p) = c # rev p"
    using assms by (subst dropWhile_append2) auto
  show ?thesis
    by (simp add: rsplit1_def tw dw)
qed

lemma rsplit1_join:
  assumes "c \<in> set s"
  shows "fst (rsplit1 c s) @ c # snd (rsplit1 c s) = s"
proof -
  let ?P = "\<lambda>x. x \<noteq> c"
  have ne: "dropWhile ?P (rev s) \<noteq> []"
    using assms by simp
  then have "\<not> ?P (hd (dropWhile ?P (rev s)))"
    by (rule hd_dropWhile)
  then have hd: "hd (dropWhile ?P (rev s)) = c" by simp
  have "rev s = takeWhile ?P (rev s) @ dropWhile ?P (rev s)" by simp
  also have "dropWhile ?P (rev s) = c # tl (dropWhile ?P (rev s))"
    using ne hd by (metis list.collapse)
  finally have "rev (rev s) = rev (takeWhile ?P (rev s) @ c # tl (dropWhile ?P (rev s)))"
    by simp
  then show ?thesis
    by (simp add: rsplit1_def)
qed

lemma parse_ro: "parse_path_colon_access (p @ '':ro'') = Inr (p, READ_ONLY)"
  using rsplit1_append [of "CHR '':''" "''ro''" p]
  by (simp add: parse_path_colon_access_def)

lemma parse_rw: "parse_path_colon_access (p @ '':rw'') = Inr (p, READ_WRITE)"
  using rsplit1_append [of "CHR '':''" "''rw''" p]
  by (simp add: parse_path_colon_access_def)

lemma parse_Inr_shape:
  assumes "parse_path_colon_access s = Inr (p, a)"
  shows "(a = READ_ONLY \<and> s = p @ '':ro'') \<or> (a = READ_WRITE \<and> s = p @ '':rw'')"
proof -
  from assms have colon: "CHR '':'' \<in> set s"
    by (auto simp: parse_path_colon_access_def split: if_splits)
  obtain p' q where sp: "rsplit1 (CHR '':'') s = (p', q)"
    by (cases "rsplit1 (CHR '':'') s")
  from rsplit1_join [OF colon] sp have s: "s = p' @ CHR '':'' # q" by simp
  from assms colon sp show ?thesis
    unfolding s by (auto simp: parse_path_colon_access_def split: if_splits)
qed

lemma parse_Inl_ValueError:
  "parse_path_colon_access s = Inl e \<Longrightarrow> e = ValueError s"
  by (auto simp: parse_path_colon_access_def split: if_splits prod.splits)

lemma parse_Inl_iff:
  "parse_path_colon_access s = Inl (ValueError s)
     \<longleftrightarrow> \<not> (\<exists>p. s = p @ '':ro'' \<or> s = p @ '':rw'')"
proof
  assume "parse_path_colon_access s = Inl (ValueError s)"
  then show "\<not> (\<exists>p. s = p @ '':ro'' \<or> s = p @ '':rw'')"
    using parse_ro parse_rw by auto
next
  assume no: "\<not> (\<exists>p. s = p @ '':ro'' \<or> s = p @ '':rw'')"
  show "parse_path_colon_access s = Inl (ValueError s)"
  proof (cases "parse_path_colon_access s")
    case (Inl e)
    then show ?thesis
      by (simp add: parse_Inl_ValueError)
  next
    case (Inr r)
    then obtain p a where "parse_path_colon_access s = Inr (p, a)" by (cases r) auto
    from parse_Inr_shape [OF this] no show ?thesis by auto
  qed
qed

text \<open>
  Claim C8: \<^verbatim>\<open>parse_path_colon_access\<close> splits at the last colon. Whatever stands before
  a final \<^verbatim>\<open>:ro\<close> or \<^verbatim>\<open>:rw\<close>, colons included, is returned as the path, so
  \<^verbatim>\<open>/a:rw:ro\<close> gives the path \<^verbatim>\<open>/a:rw\<close> with read-only access.
\<close>

theorem parse_splits_at_last_colon:
  "parse_path_colon_access (p @ '':ro'') = Inr (p, READ_ONLY)
   \<and> parse_path_colon_access (p @ '':rw'') = Inr (p, READ_WRITE)
   \<and> parse_path_colon_access ''/a:rw:ro'' = Inr (''/a:rw'', READ_ONLY)"
proof -
  have "parse_path_colon_access (''/a:rw'' @ '':ro'') = Inr (''/a:rw'', READ_ONLY)"
    by (rule parse_ro)
  then show ?thesis
    by (simp add: parse_ro parse_rw)
qed

section \<open>A malformed token ends the run\<close>

lemma extra_bind_tasks_malformed:
  assumes "b \<in> set binds" and "parse_path_colon_access b = Inl e"
  shows "\<exists>s. extra_bind_tasks h binds = Inl (ValueError s)"
  using assms
proof (induction binds)
  case Nil
  then show ?case by simp
next
  case (Cons x xs)
  show ?case
  proof (cases "parse_path_colon_access x")
    case (Inl e')
    then show ?thesis
      by (auto dest: parse_Inl_ValueError)
  next
    case (Inr r)
    with Cons.prems have "b \<in> set xs" by auto
    from Cons.IH [OF this Cons.prems(2)] obtain s
      where "extra_bind_tasks h xs = Inl (ValueError s)" by blast
    with Inr show ?thesis
      by (cases r) simp
  qed
qed

lemma dotwine_step_Inl:
  "dotwine_step h c = Inl e \<Longrightarrow> (\<exists>s. e = ValueError s) \<or> e = OSError"
  by (auto simp: dotwine_step_def Let_def makedirs_def dest: parse_Inl_ValueError
      split: option.splits sum.splits prod.splits if_splits)

lemma mount_plan_malformed:
  assumes "parse_path_colon_access d = Inl e"
    and "dotwine c = Some d \<or> d \<in> set (extra_binds c)"
  shows "\<exists>e'. mount_plan h c = Inl e' \<and> exit_status e' = 1"
proof (cases "dotwine_step h c")
  case (Inl e')
  from dotwine_step_Inl [OF this] have "exit_status e' = 1"
    by (auto simp: exit_status_def)
  with Inl show ?thesis
    by (auto simp: mount_plan_def)
next
  case (Inr r)
  obtain ts rw h' where r: "r = (ts, rw, h')" by (cases r)
  have "dotwine c \<noteq> Some d"
    using Inr assms(1)
    by (auto simp: dotwine_step_def Let_def split: option.splits sum.splits)
  with assms(2) have "d \<in> set (extra_binds c)" by simp
  from extra_bind_tasks_malformed [OF this assms(1)] obtain s
    where "extra_bind_tasks h' (extra_binds c) = Inl (ValueError s)" by blast
  with Inr r show ?thesis
    by (simp add: mount_plan_def exit_status_def)
qed

lemma select_display_binds [simp]:
  "dotwine (select_display h c) = dotwine c"
  "extra_binds (select_display h c) = extra_binds c"
  by (simp_all add: select_display_def Let_def)

lemma main_exception:
  assumes "create_bwrap_argv h (select_display h c) = Inl e" and "exit_status e = 1"
  shows "exit_code (main h c) = 1 \<and> calls (main h c) = [bwrap_probe]"
  using assms
  by (auto simp: main_def require_recent_bubblewrap_def exit_status_def sys_exit_def Let_def
      split: option.splits sum.splits)

text \<open>
  Claim C7: a token ending in \<^verbatim>\<open>:ro\<close> or \<^verbatim>\<open>:rw\<close> parses to the path before that
  ending with read-only or read-write access; parsing fails exactly for the other strings
  (no colon at all, or something else after the last colon), always with a
  \<^verbatim>\<open>ValueError\<close>; and a run whose \<^verbatim>\<open>--dotwine\<close> or \<^verbatim>\<open>--pass\<close> token fails to parse
  ends with exit status 1 before the assembled command is started.
\<close>

theorem malformed_token_is_fatal:
  "parse_path_colon_access (p @ '':ro'') = Inr (p, READ_ONLY)
   \<and> parse_path_colon_access (p @ '':rw'') = Inr (p, READ_WRITE)
   \<and> ((\<exists>e. parse_path_colon_access s = Inl e)
        \<longleftrightarrow> \<not> (\<exists>p. s = p @ '':ro'' \<or> s = p @ '':rw''))
   \<and> (\<forall>e. parse_path_colon_access s = Inl e \<longrightarrow> e = ValueError s)
   \<and> ((\<exists>e. parse_path_colon_access d = Inl e)
         \<and> (dotwine c = Some d \<or> d \<in> set (extra_binds c))
       \<longrightarrow> exit_code (main h c) = 1 \<and> calls (main h c) = [bwrap_probe])"
proof (intro conjI allI impI)
  show "(\<exists>e. parse_path_colon_access s = Inl e)
        \<longleftrightarrow> \<not> (\<exists>p. s = p @ '':ro'' \<or> s = p @ '':rw'')"
    using parse_Inl_iff [of s] parse_Inl_ValueError [of s] by blast
next
  assume a: "(\<exists>e. parse_path_colon_access d = Inl e)
     \<and> (dotwine c = Some d \<or> d \<in> set (extra_binds c))"
  then obtain e where e: "parse_path_colon_access d = Inl e" by blast
  from a have "dotwine (select_display h c) = Some d
      \<or> d \<in> set (extra_binds (select_display h c))" by simp
  from mount_plan_malformed [OF e this] obtain e'
    where "mount_plan h (select_display h c) = Inl e'" and e': "exit_status e' = 1" by blast
  then have "create_bwrap_argv h (select_display h c) = Inl e'"
    by (simp add: create_bwrap_argv_def)
  from main_exception [OF this e']
  show "exit_code (main h c) = 1" and "calls (main h c) = [bwrap_probe]"
    by simp_all
qed (simp_all add: parse_ro parse_rw parse_Inl_ValueError)

theorem malformed_token_is_fatal_witness:
  "parse_path_colon_access ''/a:ro'' = Inr (''/a'', READ_ONLY)
   \<and> parse_path_colon_access ''/a:rx'' = Inl (ValueError ''/a:rx'')
   \<and> parse_path_colon_access ''/a'' = Inl (ValueError ''/a'')
   \<and> exit_code (main example_host (example_config\<lparr>dotwine := Some ''/a:rx''\<rparr>)) = 1
   \<and> exit_code (main example_host (example_config\<lparr>extra_binds := [''/b:rw'', ''/a'']\<rparr>)) = 1"
proof -
  have rx: "parse_path_colon_access ''/a:rx'' = Inl (ValueError ''/a:rx'')"
    by (simp add: parse_path_colon_access_def rsplit1_def)
  have a: "parse_path_colon_access ''/a'' = Inl (ValueError ''/a'')"
    by (simp add: parse_path_colon_access_def)
  show ?thesis
    using rx a
      malformed_token_is_fatal [where p = "''/a''" and s = "''/a:rx''" and d = "''/a:rx''"
        and h = example_host and c = "example_config\<lparr>dotwine := Some ''/a:rx''\<rparr>"]
      malformed_token_is_fatal [where p = "''/a''" and s = "''/a''" and d = "''/a''"
        and h = example_host and c = "example_config\<lparr>extra_binds := [''/b:rw'', ''/a'']\<rparr>"]
    by simp
qed

section \<open>The mount stack\<close>

lemma mount_task_groups_Inl_iff:
  "mount_task_groups h c t = Inl e \<longleftrightarrow> e = SystemExit 1 \<and> aborts h c t"
  by (cases "mode t") (auto simp: mount_task_groups_def aborts_def add_def)

lemma mount_task_groups_aborts:
  "aborts h c t \<Longrightarrow> mount_task_groups h c t = Inl (SystemExit 1)"
  by (simp add: mount_task_groups_Inl_iff)

lemma mount_task_groups_Inr:
  "\<not> aborts h c t \<Longrightarrow> mount_task_groups h c t = Inr (rendered h c t)"
  by (cases "mount_task_groups h c t") (auto simp: rendered_def mount_task_groups_Inl_iff)


lemma rendered_non_bind:
  assumes "mode t \<notin> {BIND_RO, BIND_RW, BIND_DEV}"
  shows "mount_task_groups h c t =
      Inr [[if mode t = TMPFS then ''--tmpfs'' else if mode t = DEVTMPFS then ''--dev''
            else ''--proc'', target t]]"
  using assms by (cases "mode t") (auto simp: mount_task_groups_def add_def)


lemma rendered_last:
  "g \<in> set (rendered h c t) \<Longrightarrow> last g = target t"
  by (cases "mode t") (auto simp: rendered_def mount_task_groups_def add_def split: if_splits)

lemma mount_stack_Inl_iff:
  "mount_stack h c ts = Inl e \<longleftrightarrow> e = SystemExit 1 \<and> (\<exists>t\<in>set ts. aborts h c t)"
proof (induction ts)
  case Nil
  then show ?case by simp
next
  case (Cons t ts)
  show ?case
  proof (cases "aborts h c t")
    case True
    then show ?thesis
      by (auto simp: mount_task_groups_aborts)
  next
    case False
    then show ?thesis
      using Cons.IH
      by (auto simp: mount_task_groups_Inr split: sum.splits)
  qed
qed

lemma mount_stack_no_abort:
  "\<forall>t\<in>set ts. \<not> aborts h c t \<Longrightarrow> mount_stack h c ts = Inr (concat (map (rendered h c) ts))"
  by (induction ts) (simp_all add: mount_task_groups_Inr)

lemma mount_stack_Inr_iff:
  "mount_stack h c ts = Inr gs
     \<longleftrightarrow> (\<forall>t\<in>set ts. \<not> aborts h c t) \<and> gs = concat (map (rendered h c) ts)"
proof (cases "\<exists>t\<in>set ts. aborts h c t")
  case True
  then have "mount_stack h c ts = Inl (SystemExit 1)"
    by (simp add: mount_stack_Inl_iff)
  with True show ?thesis by auto
next
  case False
  then show ?thesis
    using mount_stack_no_abort [of ts h c] by auto
qed



lemma create_bwrap_argv_Inr:
  assumes "create_bwrap_argv h c = Inr (gs, h')"
  shows "\<exists>ts rw pv. mount_plan h c = Inr (ts, rw, h')
      \<and> (\<forall>t\<in>set ts. \<not> aborts h' c t)
      \<and> resolved_PATH h' (sorted_mount_tasks ts) = Inr pv
      \<and> gs = argv_head h c
           @ concat (map (rendered h' c) (sorted_mount_tasks ts))
           @ [[''--clearenv'']]
           @ setenv_groups h' (AList.update ''PATH'' (Some pv) (env_plan h c))
           @ [[''--'']]
           @ wrapper_groups c rw
           @ inner_groups c"
proof -
  from assms obtain ts rw where plan: "mount_plan h c = Inr (ts, rw, h')"
    by (auto simp: create_bwrap_argv_def split: sum.splits prod.splits)
  from assms plan obtain mg where mg: "mount_stack h' c (sorted_mount_tasks ts) = Inr mg"
    by (auto simp: create_bwrap_argv_def split: sum.splits)
  from assms plan mg obtain pv where pv: "resolved_PATH h' (sorted_mount_tasks ts) = Inr pv"
    by (auto simp: create_bwrap_argv_def split: sum.splits)
  from mg have na: "\<forall>t\<in>set ts. \<not> aborts h' c t"
    and mg_eq: "mg = concat (map (rendered h' c) (sorted_mount_tasks ts))"
    by (simp_all add: mount_stack_Inr_iff sorted_mount_tasks_def)
  from assms plan mg pv have "gs = argv_head h c @ mg @ [[''--clearenv'']]
           @ setenv_groups h' (AList.update ''PATH'' (Some pv) (env_plan h c))
           @ [[''--'']] @ wrapper_groups c rw @ inner_groups c"
    by (simp add: create_bwrap_argv_def argv_head_def)
  with plan na pv mg_eq show ?thesis by blast
qed




lemma planned_mount_tasks_eq:
  "mount_plan h c = Inr (ts, rw, h') \<Longrightarrow> planned_mount_tasks h c = ts"
  by (simp add: planned_mount_tasks_def)

lemma create_bwrap_argv_mount_section:
  assumes "create_bwrap_argv h c = Inr (gs, h')"
  shows "\<exists>pre post. gs = pre
      @ concat (map (rendered h' c) (sorted_mount_tasks (planned_mount_tasks h c))) @ post"
proof -
  from create_bwrap_argv_Inr [OF assms] obtain ts rw pv
    where "mount_plan h c = Inr (ts, rw, h')"
      and "gs = argv_head h c
           @ concat (map (rendered h' c) (sorted_mount_tasks ts))
           @ [[''--clearenv'']]
           @ setenv_groups h' (AList.update ''PATH'' (Some pv) (env_plan h c))
           @ [[''--'']]
           @ wrapper_groups c rw
           @ inner_groups c"
    by blast
  then show ?thesis
    by (metis planned_mount_tasks_eq)
qed

text \<open>
  Claim C9: a task that is not of bind type (tmpfs, device tmpfs, proc) always gives its
  one group, whatever the host, the configuration and its \<^verbatim>\<open>required\<close> flag are, so no
  existence test decides about it, and the group is in the returned argv whenever the
  task is in the plan; an exit of the loop is always due to a required bind-type task
  with a missing source, and a task that adds nothing is an optional bind-type task with
  a missing source.
\<close>

theorem non_bind_tasks_always_rendered:
  assumes "mode t \<notin> {BIND_RO, BIND_RW, BIND_DEV}"
  shows "mount_task_groups h c t =
       Inr [[if mode t = TMPFS then ''--tmpfs'' else if mode t = DEVTMPFS then ''--dev''
             else ''--proc'', target t]]
    \<and> mount_task_groups h2 c2 (t\<lparr>required := r\<rparr>) = mount_task_groups h c t
    \<and> (create_bwrap_argv h c = Inr (gs, h') \<and> t \<in> set (planned_mount_tasks h c)
         \<longrightarrow> [if mode t = TMPFS then ''--tmpfs'' else if mode t = DEVTMPFS then ''--dev''
               else ''--proc'', target t] \<in> set gs)
    \<and> (mount_stack h c ts = Inl e
         \<longrightarrow> (\<exists>u\<in>set ts. mode u \<in> {BIND_RO, BIND_RW, BIND_DEV}
               \<and> missing_source h c u \<and> required u))
    \<and> (mount_task_groups h c u = Inr []
         \<longrightarrow> mode u \<in> {BIND_RO, BIND_RW, BIND_DEV} \<and> missing_source h c u \<and> \<not> required u)"
proof (intro conjI impI)
  let ?g = "[if mode t = TMPFS then ''--tmpfs'' else if mode t = DEVTMPFS then ''--dev''
             else ''--proc'', target t]"
  show 1: "mount_task_groups h c t = Inr [?g]"
    by (rule rendered_non_bind [OF assms])
  have "mode (t\<lparr>required := r\<rparr>) \<notin> {BIND_RO, BIND_RW, BIND_DEV}"
    using assms by simp
  from rendered_non_bind [OF this] 1
  show "mount_task_groups h2 c2 (t\<lparr>required := r\<rparr>) = mount_task_groups h c t"
    by simp
  {
    assume a: "create_bwrap_argv h c = Inr (gs, h') \<and> t \<in> set (planned_mount_tasks h c)"
    from create_bwrap_argv_mount_section [of h c gs h'] a obtain pre post
      where gs: "gs = pre
        @ concat (map (rendered h' c) (sorted_mount_tasks (planned_mount_tasks h c))) @ post"
      by blast
    have "rendered h' c t = [?g]"
      using rendered_non_bind [OF assms, of h' c] by (simp add: rendered_def)
    moreover have "t \<in> set (sorted_mount_tasks (planned_mount_tasks h c))"
      using a by (simp add: sorted_mount_tasks_def)
    ultimately show "?g \<in> set gs"
      unfolding gs by force
  }
  {
    assume "mount_stack h c ts = Inl e"
    then show "\<exists>u\<in>set ts. mode u \<in> {BIND_RO, BIND_RW, BIND_DEV}
               \<and> missing_source h c u \<and> required u"
      by (simp add: mount_stack_Inl_iff aborts_def)
  }
  {
    assume "mount_task_groups h c u = Inr []"
    then show "mode u \<in> {BIND_RO, BIND_RW, BIND_DEV}" and "missing_source h c u"
      and "\<not> required u"
      by (cases "mode u"; auto simp: mount_task_groups_def add_def split: if_splits)+
  }
qed

lemma create_bwrap_argv_success:
  assumes "mount_plan h c = Inr (ts, rw, h')" and "\<forall>t\<in>set ts. \<not> aborts h' c t"
    and "environ h' ''PATH'' = Some pv"
  shows "\<exists>gs. create_bwrap_argv h c = Inr (gs, h')"
proof -
  have "mount_stack h' c (sorted_mount_tasks ts)
      = Inr (concat (map (rendered h' c) (sorted_mount_tasks ts)))"
    using assms(2) by (intro mount_stack_no_abort) (simp add: sorted_mount_tasks_def)
  with assms(1,3) show ?thesis
    by (simp add: create_bwrap_argv_def resolved_PATH_def)
qed

lemma final_argv_eq:
  "create_bwrap_argv h c = Inr (gs, h') \<Longrightarrow> final_argv h c = gs"
  by (simp add: final_argv_def)

lemma example_plan_plain:
  "mount_plan example_host example_config
   = Inr (baseline_mount_tasks ''/home/u'' @ [task TMPFS ''/home/u/.wine''], False, example_host)"
  by (simp add: mount_plan_def dotwine_step_def example_config_def example_host_def
      network_mount_tasks_def pulseaudio_mount_tasks_def x11_mount_tasks_def
      program_mount_tasks_def)

lemma example_run_plain:
  "\<exists>gs. create_bwrap_argv example_host example_config = Inr (gs, example_host)"
proof (rule create_bwrap_argv_success [OF example_plan_plain])
  show "\<forall>t\<in>set (baseline_mount_tasks ''/home/u'' @ [task TMPFS ''/home/u/.wine'']).
      \<not> aborts example_host example_config t"
    by (simp add: baseline_mount_tasks_def aborts_def missing_source_def source_of_def
        task_def example_host_def)
  show "environ example_host ''PATH'' = Some ''/lib32/bin:/opt/bin''"
    by (simp add: example_host_def)
qed

theorem non_bind_tasks_always_rendered_witness:
  "mount_task_groups example_host example_config (task PROC ''/proc'')
     = Inr [[''--proc'', ''/proc'']]
   \<and> [''--proc'', ''/proc''] \<in> set (final_argv example_host example_config)"
proof -
  from example_run_plain obtain gs
    where gs: "create_bwrap_argv example_host example_config = Inr (gs, example_host)"
    by blast
  have t: "task PROC ''/proc'' \<in> set (planned_mount_tasks example_host example_config)"
    by (simp add: planned_mount_tasks_eq [OF example_plan_plain] baseline_mount_tasks_def)
  from non_bind_tasks_always_rendered [where t = "task PROC ''/proc''" and h = example_host
      and c = example_config and gs = gs and h' = example_host] gs t
  have "mount_task_groups example_host example_config (task PROC ''/proc'')
     = Inr [[''--proc'', ''/proc'']] \<and> [''--proc'', ''/proc''] \<in> set gs"
    by (simp add: task_def)
  with final_argv_eq [OF gs] show ?thesis by simp
qed



section \<open>The order of the mount stack\<close>

lemma map_target_sorted_mount_tasks:
  "map target (sorted_mount_tasks ts) = sort (map target ts)"
proof -
  have "mset (map target (sorted_mount_tasks ts)) = mset (map target ts)"
    by (simp add: sorted_mount_tasks_def)
  moreover have "sorted (map target (sorted_mount_tasks ts))"
    by (simp add: sorted_mount_tasks_def)
  ultimately show ?thesis
    by (rule properties_for_sort [symmetric])
qed

lemma sort_perm:
  fixes xs ys :: "string list"
  assumes "mset xs = mset ys"
  shows "sort xs = sort ys"
  by (rule properties_for_sort) (simp_all add: assms)

lemma sorted_rendered:
  assumes "sorted (map target ts)"
  shows "sorted (map last (concat (map (rendered h c) ts)))"
  using assms
proof (induction ts)
  case Nil
  then show ?case by simp
next
  case (Cons t ts)
  have 1: "\<forall>x\<in>set (map last (rendered h c t)). x = target t"
    by (auto dest: rendered_last)
  then have "sorted (map last (rendered h c t))"
    by (induction "rendered h c t") (auto simp: sorted_wrt_iff_nth_less)
  moreover have "sorted (map last (concat (map (rendered h c) ts)))"
    using Cons by simp
  moreover have "\<forall>x\<in>set (map last (rendered h c t)).
      \<forall>y\<in>set (map last (concat (map (rendered h c) ts))). x \<le> y"
    using Cons.prems by (auto dest!: rendered_last)
  ultimately show ?case
    by (simp add: sorted_append)
qed


text \<open>
  Claim C2, as amended: the tasks are consumed in ascending order of their target
  strings as they are (no trailing separator is added for the comparison, and equal
  targets may follow each other); the consumed list is a rearrangement of the plan, the
  sequence of targets is the same for every insertion order of the same tasks, and the
  rendered mount groups follow that order.
\<close>

theorem mount_tasks_consumed_in_target_order:
  "sorted (map target (sorted_mount_tasks ts))
   \<and> mset (sorted_mount_tasks ts) = mset ts
   \<and> (mset ts' = mset ts
        \<longrightarrow> map target (sorted_mount_tasks ts') = map target (sorted_mount_tasks ts))
   \<and> (mount_stack h c (sorted_mount_tasks ts) = Inr gs
        \<longrightarrow> gs = concat (map (rendered h c) (sorted_mount_tasks ts)) \<and> sorted (map last gs))"
proof (intro conjI impI)
  show s: "sorted (map target (sorted_mount_tasks ts))"
    by (simp add: sorted_mount_tasks_def)
  show "mset (sorted_mount_tasks ts) = mset ts"
    by (simp add: sorted_mount_tasks_def)
  {
    assume "mset ts' = mset ts"
    then have "mset (map target ts') = mset (map target ts)" by simp
    then have "sort (map target ts') = sort (map target ts)" by (rule sort_perm)
    then show "map target (sorted_mount_tasks ts') = map target (sorted_mount_tasks ts)"
      by (simp add: map_target_sorted_mount_tasks)
  }
  {
    assume "mount_stack h c (sorted_mount_tasks ts) = Inr gs"
    then show g: "gs = concat (map (rendered h c) (sorted_mount_tasks ts))"
      by (simp add: mount_stack_Inr_iff)
    show "sorted (map last gs)"
      unfolding g using s by (rule sorted_rendered)
  }
qed

theorem mount_tasks_consumed_in_target_order_witness:
  "map target (sorted_mount_tasks [task TMPFS ''/tmp'', task BIND_RO ''/a-b'', task BIND_RO ''/a''])
     = map target (sorted_mount_tasks [task BIND_RO ''/a'', task TMPFS ''/tmp'', task BIND_RO ''/a-b''])
   \<and> mount_stack example_host example_config
        (sorted_mount_tasks [task TMPFS ''/tmp'', task BIND_RO ''/a-b'', task BIND_RO ''/a''])
      = Inr [[''--ro-bind'', ''/a'', ''/a''], [''--ro-bind'', ''/a-b'', ''/a-b''], [''--tmpfs'', ''/tmp'']]
   \<and> sorted [''/a'', ''/a-b'', ''/tmp'']"
proof -
  let ?ts = "[task TMPFS ''/tmp'', task BIND_RO ''/a-b'', task BIND_RO ''/a'']"
  let ?ts' = "[task BIND_RO ''/a'', task TMPFS ''/tmp'', task BIND_RO ''/a-b'']"
  let ?gs = "[[''--ro-bind'', ''/a'', ''/a''], [''--ro-bind'', ''/a-b'', ''/a-b''], [''--tmpfs'', ''/tmp'']]"
  have m: "mset ?ts' = mset ?ts" by (simp add: add.commute)
  have r: "mount_stack example_host example_config (sorted_mount_tasks ?ts) = Inr ?gs"
    by (simp add: sorted_mount_tasks_def task_def mount_task_groups_def add_def
        missing_source_def source_of_def example_host_def)
  from mount_tasks_consumed_in_target_order [where ts = ?ts and ts' = ?ts' and h = example_host
      and c = example_config and gs = ?gs] m r
  show ?thesis by simp
qed

text \<open>
  The order is not the order of the targets with a single trailing separator: for the
  program path \<^verbatim>\<open>/p/prog\<close> the plan holds \<^verbatim>\<open>/p/prog\<close>, \<^verbatim>\<open>/p/prog.exe\<close> and
  \<^verbatim>\<open>/p/prog.EXE\<close>, consumed with \<^verbatim>\<open>/p/prog\<close> first, while \<^verbatim>\<open>/p/prog.EXE/\<close> is
  smaller than \<^verbatim>\<open>/p/prog/\<close>.
\<close>

theorem normalized_target_order_counterexample:
  "\<not> sorted (map single_trailing_sep (map target
      (sorted_mount_tasks
         (planned_mount_tasks example_host (example_config\<lparr>argv_0 := Some ''/p/prog''\<rparr>)))))"
  by code_simp




section \<open>The environment\<close>

lemma mount_plan_host:
  assumes "mount_plan h c = Inr (ts, rw, h')"
  shows "h' = h \<or> (\<exists>d. h' = created d h)"
  using assms
  by (auto simp: mount_plan_def dotwine_step_def Let_def makedirs_def
      split: sum.splits option.splits prod.splits if_splits)

lemma mount_plan_environ:
  "mount_plan h c = Inr (ts, rw, h') \<Longrightarrow> environ h' = environ h"
  by (auto dest!: mount_plan_host simp: created_def)

lemma mount_plan_realpath:
  "mount_plan h c = Inr (ts, rw, h') \<Longrightarrow> realpath h' = realpath h"
  by (auto dest!: mount_plan_host simp: created_def)

lemma setenv_names:
  "map (\<lambda>g. hd (tl g)) (concat (map (setenv_group h) xs))
   = map fst (filter (\<lambda>item. snd item \<noteq> None \<or> environ h (fst item) \<noteq> None) xs)"
  by (induction xs) (auto simp: setenv_group_def add_def split: option.splits)

lemma setenv_shape:
  "g \<in> set (concat (map (setenv_group h) xs)) \<Longrightarrow> length g = 3 \<and> hd g = ''--setenv''"
  by (induction xs) (auto simp: setenv_group_def add_def split: option.splits)

lemma setenv_explicit:
  "(k, Some v) \<in> set xs \<Longrightarrow> [''--setenv'', k, v] \<in> set (concat (map (setenv_group h) xs))"
  by (force simp: setenv_group_def add_def)

lemma setenv_inherited:
  "(k, None) \<in> set xs \<Longrightarrow> environ h k = Some v
     \<Longrightarrow> [''--setenv'', k, v] \<in> set (concat (map (setenv_group h) xs))"
  by (force simp: setenv_group_def add_def)

lemma map_fst_sort_key:
  fixes et :: "(string \<times> 'a) list"
  shows "map fst (sort_key fst et) = sort (map fst et)"
proof -
  have "mset (map fst (sort_key fst et)) = mset (map fst et)" by simp
  moreover have "sorted (map fst (sort_key fst et))" by simp
  ultimately show ?thesis
    by (rule properties_for_sort [symmetric])
qed

lemma setenv_groups_names_strict:
  assumes "distinct (map fst et)"
  shows "sorted_wrt (<) (map (\<lambda>g. hd (tl g)) (setenv_groups h et))"
proof -
  let ?P = "\<lambda>item. snd item \<noteq> None \<or> environ h (fst item) \<noteq> None"
  have "sorted (map fst (sort_key fst et))" by simp
  moreover have "distinct (map fst (sort_key fst et))"
    using assms by (simp add: map_fst_sort_key)
  ultimately have "sorted_wrt (<) (map fst (sort_key fst et))"
    by (simp add: strict_sorted_iff)
  then have "sorted_wrt (\<lambda>x y. fst x < fst y) (sort_key fst et)"
    by (simp add: sorted_wrt_map)
  then have "sorted_wrt (\<lambda>x y. fst x < fst y) (filter ?P (sort_key fst et))"
    by (rule sorted_wrt_filter)
  then show ?thesis
    by (simp add: setenv_groups_def setenv_names sorted_wrt_map)
qed

lemma setenv_groups_unset:
  assumes "distinct (map fst et)" and "(k, None) \<in> set et" and "environ h k = None"
  shows "k \<notin> set (map (\<lambda>g. hd (tl g)) (setenv_groups h et))"
proof
  assume "k \<in> set (map (\<lambda>g. hd (tl g)) (setenv_groups h et))"
  then obtain ov where "(k, ov) \<in> set et" and "ov \<noteq> None \<or> environ h k \<noteq> None"
    by (auto simp: setenv_groups_def setenv_names)
  moreover from assms(1,2) \<open>(k, ov) \<in> set et\<close> have "ov = None"
    by (meson eq_key_imp_eq_value)
  ultimately show False using assms(3) by simp
qed

lemma env_plan_keys:
  "map fst (env_plan h c) =
     [''HOME'', ''TERM'', ''USER'', ''WINEDEBUG'', ''container'', ''HOSTNAME'']
     @ (if pulseaudio c then [''PULSE_SERVER''] else [])
     @ (if x11 c \<noteq> NONE then [''DISPLAY''] else [])"
  by (simp add: env_plan_def Let_def)

lemma env_plan_inherit:
  "k \<in> {''HOME'', ''TERM'', ''USER'', ''WINEDEBUG''}
     \<Longrightarrow> (k, None) \<in> set (AList.update ''PATH'' (Some pv) (env_plan h c))"
  by (auto simp: env_plan_def Let_def)

lemma env_final_distinct:
  "distinct (map fst (AList.update ''PATH'' (Some pv) (env_plan h c)))"
  by (simp add: distinct_update env_plan_keys)

lemma mount_plan_run_winecfg:
  "mount_plan h c = Inr (ts, rw, h') \<Longrightarrow> run_winecfg h c = rw"
  by (auto simp: mount_plan_def run_winecfg_def split: sum.splits prod.splits)

lemma create_bwrap_argv_sections:
  assumes "create_bwrap_argv h c = Inr (gs, h')"
  shows "gs = argv_head h c
           @ concat (map (rendered h' c) (sorted_mount_tasks (planned_mount_tasks h c)))
           @ [[''--clearenv'']]
           @ setenv_groups h' (final_env_tasks h c)
           @ [[''--'']]
           @ wrapper_groups c (run_winecfg h c)
           @ inner_groups c"
proof -
  from create_bwrap_argv_Inr [OF assms] obtain ts rw pv
    where plan: "mount_plan h c = Inr (ts, rw, h')"
      and pv: "resolved_PATH h' (sorted_mount_tasks ts) = Inr pv"
      and gs: "gs = argv_head h c
           @ concat (map (rendered h' c) (sorted_mount_tasks ts))
           @ [[''--clearenv'']]
           @ setenv_groups h' (AList.update ''PATH'' (Some pv) (env_plan h c))
           @ [[''--'']]
           @ wrapper_groups c rw
           @ inner_groups c"
    by blast
  have "final_env_tasks h c = AList.update ''PATH'' (Some pv) (env_plan h c)"
    using plan pv by (simp add: final_env_tasks_def)
  with gs show ?thesis
    by (simp add: planned_mount_tasks_eq [OF plan] mount_plan_run_winecfg [OF plan])
qed

lemma final_env_tasks_distinct: "distinct (map fst (final_env_tasks h c))"
  by (auto simp: final_env_tasks_def env_final_distinct env_plan_keys
      split: sum.splits prod.splits)

lemma final_env_tasks_inherit:
  "k \<in> {''HOME'', ''TERM'', ''USER'', ''WINEDEBUG''} \<Longrightarrow> (k, None) \<in> set (final_env_tasks h c)"
  using env_plan_inherit [of k _ h c]
  by (auto simp: final_env_tasks_def env_plan_def Let_def split: sum.splits prod.splits)

lemma available_paths_realpath:
  "realpath h' = realpath h \<Longrightarrow> available_paths h' ts cands = available_paths h ts cands"
  by (simp add: available_paths_def)

lemma setenv_group_simps:
  "setenv_group h (k, Some v) = [[''--setenv'', k, v]]"
  "setenv_group h (k, None)
     = (case environ h k of None \<Rightarrow> [] | Some v \<Rightarrow> [[''--setenv'', k, v]])"
  by (simp_all add: setenv_group_def add_def split: option.splits)

lemma setenv_groups_explicit:
  "setenv_groups h' (AList.update ''PATH'' (Some pv) (env_plan h c))
   = (if x11 c \<noteq> NONE
      then [[''--setenv'', ''DISPLAY'', '':'' @ str_int (x11_display_number c)]] else [])
     @ (case environ h' ''HOME'' of None \<Rightarrow> [] | Some v \<Rightarrow> [[''--setenv'', ''HOME'', v]])
     @ [[''--setenv'', ''HOSTNAME'', random_hostname h]]
     @ [[''--setenv'', ''PATH'', pv]]
     @ (if pulseaudio c
        then [[''--setenv'', ''PULSE_SERVER'', ''unix:'' @ pulseaudio_socket h]] else [])
     @ (case environ h' ''TERM'' of None \<Rightarrow> [] | Some v \<Rightarrow> [[''--setenv'', ''TERM'', v]])
     @ (case environ h' ''USER'' of None \<Rightarrow> [] | Some v \<Rightarrow> [[''--setenv'', ''USER'', v]])
     @ (case environ h' ''WINEDEBUG'' of None \<Rightarrow> []
        | Some v \<Rightarrow> [[''--setenv'', ''WINEDEBUG'', v]])
     @ [[''--setenv'', ''container'', ''sandwine'']]"
  by (cases "pulseaudio c"; cases "x11 c = NONE")
    (simp_all add: setenv_groups_def env_plan_def Let_def setenv_group_simps)

text \<open>
  Claim C5: in a returned argv the groups between \<^verbatim>\<open>--clearenv\<close> and \<^verbatim>\<open>--\<close> are the
  environment groups, and they are exactly these, in this order of ascending names:
  \<^verbatim>\<open>DISPLAY\<close> (with a display), \<^verbatim>\<open>HOME\<close>, \<^verbatim>\<open>HOSTNAME\<close>, \<^verbatim>\<open>PATH\<close>, \<^verbatim>\<open>PULSE_SERVER\<close>
  (with sound), \<^verbatim>\<open>TERM\<close>, \<^verbatim>\<open>USER\<close>, \<^verbatim>\<open>WINEDEBUG\<close>, \<^verbatim>\<open>container\<close>, one group
  \<^verbatim>\<open>--setenv NAME VALUE\<close> per variable, where an inherit-if-present variable
  (\<^verbatim>\<open>HOME\<close>, \<^verbatim>\<open>TERM\<close>, \<^verbatim>\<open>USER\<close>, \<^verbatim>\<open>WINEDEBUG\<close>) that is unset on the host has no
  group and one that is set has the group with exactly its host value. The names are
  strictly ascending.
\<close>

theorem environment_rendering:
  assumes "create_bwrap_argv h c = Inr (gs, h')"
  shows "gs = argv_head h c
           @ concat (map (rendered h' c) (sorted_mount_tasks (planned_mount_tasks h c)))
           @ [[''--clearenv'']]
           @ setenv_groups h' (final_env_tasks h c)
           @ [[''--'']]
           @ wrapper_groups c (run_winecfg h c)
           @ inner_groups c
    \<and> (environ h ''PATH'' = Some p0
        \<longrightarrow> setenv_groups h' (final_env_tasks h c)
          = (if x11 c \<noteq> NONE
             then [[''--setenv'', ''DISPLAY'', '':'' @ str_int (x11_display_number c)]] else [])
            @ (case environ h ''HOME'' of None \<Rightarrow> []
               | Some v \<Rightarrow> [[''--setenv'', ''HOME'', v]])
            @ [[''--setenv'', ''HOSTNAME'', random_hostname h]]
            @ [[''--setenv'', ''PATH'',
                join [os_pathsep]
                  (available_paths h (sorted_mount_tasks (planned_mount_tasks h c))
                     (candidate_paths p0))]]
            @ (if pulseaudio c
               then [[''--setenv'', ''PULSE_SERVER'', ''unix:'' @ pulseaudio_socket h]] else [])
            @ (case environ h ''TERM'' of None \<Rightarrow> []
               | Some v \<Rightarrow> [[''--setenv'', ''TERM'', v]])
            @ (case environ h ''USER'' of None \<Rightarrow> []
               | Some v \<Rightarrow> [[''--setenv'', ''USER'', v]])
            @ (case environ h ''WINEDEBUG'' of None \<Rightarrow> []
               | Some v \<Rightarrow> [[''--setenv'', ''WINEDEBUG'', v]])
            @ [[''--setenv'', ''container'', ''sandwine'']])
    \<and> sorted_wrt (<) (map (\<lambda>g. hd (tl g)) (setenv_groups h' (final_env_tasks h c)))
    \<and> (\<forall>g\<in>set (setenv_groups h' (final_env_tasks h c)). length g = 3 \<and> hd g = ''--setenv'')
    \<and> (k \<in> {''HOME'', ''TERM'', ''USER'', ''WINEDEBUG''} \<and> environ h k = None
         \<longrightarrow> k \<notin> set (map (\<lambda>g. hd (tl g)) (setenv_groups h' (final_env_tasks h c))))
    \<and> (k \<in> {''HOME'', ''TERM'', ''USER'', ''WINEDEBUG''} \<and> environ h k = Some v
         \<longrightarrow> [''--setenv'', k, v] \<in> set (setenv_groups h' (final_env_tasks h c)))"
proof (intro conjI impI ballI)
  from create_bwrap_argv_Inr [OF assms] obtain ts rw pv
    where plan: "mount_plan h c = Inr (ts, rw, h')"
      and pv: "resolved_PATH h' (sorted_mount_tasks ts) = Inr pv" by blast
  note env = mount_plan_environ [OF plan]
  show "gs = argv_head h c
           @ concat (map (rendered h' c) (sorted_mount_tasks (planned_mount_tasks h c)))
           @ [[''--clearenv'']]
           @ setenv_groups h' (final_env_tasks h c)
           @ [[''--'']]
           @ wrapper_groups c (run_winecfg h c)
           @ inner_groups c"
    by (rule create_bwrap_argv_sections [OF assms])
  show "sorted_wrt (<) (map (\<lambda>g. hd (tl g)) (setenv_groups h' (final_env_tasks h c)))"
    by (rule setenv_groups_names_strict [OF final_env_tasks_distinct])
  {
    assume p0: "environ h ''PATH'' = Some p0"
    then have "pv = join [os_pathsep]
        (available_paths h' (sorted_mount_tasks ts) (candidate_paths p0))"
      using pv by (simp add: resolved_PATH_def env)
    then have pv_eq: "pv = join [os_pathsep]
        (available_paths h (sorted_mount_tasks (planned_mount_tasks h c)) (candidate_paths p0))"
      by (simp add: available_paths_realpath [OF mount_plan_realpath [OF plan]]
          planned_mount_tasks_eq [OF plan])
    have "final_env_tasks h c = AList.update ''PATH'' (Some pv) (env_plan h c)"
      using plan pv by (simp add: final_env_tasks_def)
    then show "setenv_groups h' (final_env_tasks h c)
          = (if x11 c \<noteq> NONE
             then [[''--setenv'', ''DISPLAY'', '':'' @ str_int (x11_display_number c)]] else [])
            @ (case environ h ''HOME'' of None \<Rightarrow> []
               | Some v \<Rightarrow> [[''--setenv'', ''HOME'', v]])
            @ [[''--setenv'', ''HOSTNAME'', random_hostname h]]
            @ [[''--setenv'', ''PATH'',
                join [os_pathsep]
                  (available_paths h (sorted_mount_tasks (planned_mount_tasks h c))
                     (candidate_paths p0))]]
            @ (if pulseaudio c
               then [[''--setenv'', ''PULSE_SERVER'', ''unix:'' @ pulseaudio_socket h]] else [])
            @ (case environ h ''TERM'' of None \<Rightarrow> []
               | Some v \<Rightarrow> [[''--setenv'', ''TERM'', v]])
            @ (case environ h ''USER'' of None \<Rightarrow> []
               | Some v \<Rightarrow> [[''--setenv'', ''USER'', v]])
            @ (case environ h ''WINEDEBUG'' of None \<Rightarrow> []
               | Some v \<Rightarrow> [[''--setenv'', ''WINEDEBUG'', v]])
            @ [[''--setenv'', ''container'', ''sandwine'']]"
      by (simp only: setenv_groups_explicit env pv_eq)
  }
  {
    fix g assume "g \<in> set (setenv_groups h' (final_env_tasks h c))"
    then have "length g = 3 \<and> hd g = ''--setenv''"
      unfolding setenv_groups_def by (rule setenv_shape)
    then show "length g = 3" and "hd g = ''--setenv''"
      by simp_all
  }
  {
    assume "k \<in> {''HOME'', ''TERM'', ''USER'', ''WINEDEBUG''} \<and> environ h k = None"
    then show "k \<notin> set (map (\<lambda>g. hd (tl g)) (setenv_groups h' (final_env_tasks h c)))"
      by (intro setenv_groups_unset final_env_tasks_distinct final_env_tasks_inherit)
        (simp_all add: env)
  }
  {
    assume a: "k \<in> {''HOME'', ''TERM'', ''USER'', ''WINEDEBUG''} \<and> environ h k = Some v"
    then have "(k, None) \<in> set (sort_key fst (final_env_tasks h c))"
      using final_env_tasks_inherit [of k h c] by simp
    moreover from a have "environ h' k = Some v" by (simp add: env)
    ultimately show "[''--setenv'', k, v] \<in> set (setenv_groups h' (final_env_tasks h c))"
      unfolding setenv_groups_def by (rule setenv_inherited)
  }
qed

lemma example_plan_env:
  "mount_plan (example_host\<lparr>environ := e\<rparr>) example_config
   = Inr (baseline_mount_tasks ''/home/u'' @ [task TMPFS ''/home/u/.wine''], False,
          example_host\<lparr>environ := e\<rparr>)"
  by (simp add: mount_plan_def dotwine_step_def example_config_def example_host_def
      network_mount_tasks_def pulseaudio_mount_tasks_def x11_mount_tasks_def
      program_mount_tasks_def)

lemma example_run_env:
  assumes "e ''PATH'' = Some pv"
  shows "\<exists>gs. create_bwrap_argv (example_host\<lparr>environ := e\<rparr>) example_config
      = Inr (gs, example_host\<lparr>environ := e\<rparr>)"
proof (rule create_bwrap_argv_success [OF example_plan_env])
  show "\<forall>t\<in>set (baseline_mount_tasks ''/home/u'' @ [task TMPFS ''/home/u/.wine'']).
      \<not> aborts (example_host\<lparr>environ := e\<rparr>) example_config t"
    by (simp add: baseline_mount_tasks_def aborts_def missing_source_def source_of_def
        task_def example_host_def)
  show "environ (example_host\<lparr>environ := e\<rparr>) ''PATH'' = Some pv"
    using assms by simp
qed

theorem environment_rendering_witness:
  "''WINEDEBUG'' \<notin> set (map (\<lambda>g. hd (tl g))
       (setenv_groups example_host (final_env_tasks example_host example_config)))
   \<and> [''--setenv'', ''WINEDEBUG'', ''warn'']
       \<in> set (setenv_groups
           (example_host\<lparr>environ := [''PATH'' \<mapsto> ''/usr/bin'', ''WINEDEBUG'' \<mapsto> ''warn'']\<rparr>)
           (final_env_tasks
             (example_host\<lparr>environ := [''PATH'' \<mapsto> ''/usr/bin'', ''WINEDEBUG'' \<mapsto> ''warn'']\<rparr>)
             example_config))
   \<and> setenv_groups
           (example_host\<lparr>environ := [''PATH'' \<mapsto> ''/usr/bin'', ''WINEDEBUG'' \<mapsto> ''warn'']\<rparr>)
           (final_env_tasks
             (example_host\<lparr>environ := [''PATH'' \<mapsto> ''/usr/bin'', ''WINEDEBUG'' \<mapsto> ''warn'']\<rparr>)
             example_config)
      = [[''--setenv'', ''HOSTNAME'', ''aaaaaaaaaaaa''],
         [''--setenv'', ''PATH'', ''/usr/bin:/usr/lib/wine''],
         [''--setenv'', ''WINEDEBUG'', ''warn''],
         [''--setenv'', ''container'', ''sandwine'']]"
proof -
  let ?hw = "example_host\<lparr>environ := [''PATH'' \<mapsto> ''/usr/bin'', ''WINEDEBUG'' \<mapsto> ''warn'']\<rparr>"
  from example_run_plain obtain gs
    where gs: "create_bwrap_argv example_host example_config = Inr (gs, example_host)"
    by blast
  have unset: "environ example_host ''WINEDEBUG'' = None"
    by (simp add: example_host_def)
  from example_run_env [of "[''PATH'' \<mapsto> ''/usr/bin'', ''WINEDEBUG'' \<mapsto> ''warn'']" "''/usr/bin''"]
  obtain gw where gw: "create_bwrap_argv ?hw example_config = Inr (gw, ?hw)"
    by auto
  have set: "environ ?hw ''WINEDEBUG'' = Some ''warn''" "environ ?hw ''PATH'' = Some ''/usr/bin''"
    "environ ?hw ''HOME'' = None" "environ ?hw ''TERM'' = None" "environ ?hw ''USER'' = None"
    by simp_all
  have hn: "random_hostname ?hw = ''aaaaaaaaaaaa''"
    by code_simp
  have pv: "join [os_pathsep]
      (available_paths ?hw (sorted_mount_tasks (planned_mount_tasks ?hw example_config))
         (candidate_paths ''/usr/bin'')) = ''/usr/bin:/usr/lib/wine''"
    by code_simp
  have cfg: "x11 example_config = NONE" "\<not> pulseaudio example_config"
    by (simp_all add: example_config_def)
  from environment_rendering [OF gs, where k = "''WINEDEBUG''"] unset
  have 1: "''WINEDEBUG'' \<notin> set (map (\<lambda>g. hd (tl g))
       (setenv_groups example_host (final_env_tasks example_host example_config)))"
    by simp
  from environment_rendering [OF gw, where k = "''WINEDEBUG''" and v = "''warn''"
      and ?p0.0 = "''/usr/bin''"]
  have 2: "[''--setenv'', ''WINEDEBUG'', ''warn'']
       \<in> set (setenv_groups ?hw (final_env_tasks ?hw example_config))"
    and 3: "setenv_groups ?hw (final_env_tasks ?hw example_config)
      = [[''--setenv'', ''HOSTNAME'', ''aaaaaaaaaaaa''],
         [''--setenv'', ''PATH'', ''/usr/bin:/usr/lib/wine''],
         [''--setenv'', ''WINEDEBUG'', ''warn''],
         [''--setenv'', ''container'', ''sandwine'']]"
    by (simp_all only: set hn pv cfg) simp_all
  from 1 2 3 show ?thesis by blast
qed

section \<open>The search path\<close>

lemma available_paths_iff:
  "p \<in> set (available_paths h ts cands)
     \<longleftrightarrow> p \<in> set (map (realpath h) cands) \<and> (\<exists>t\<in>set ts. contained_in p t)"
  by (auto simp: available_paths_def list_ex_iff)

lemma available_paths_filter:
  "available_paths h ts cands
   = map (realpath h) (filter (\<lambda>p. list_ex (contained_in (realpath h p)) ts) cands)"
  by (simp add: available_paths_def filter_map comp_def list_ex_iff)

lemma available_paths_sorted:
  "available_paths h (sorted_mount_tasks ts) cands = available_paths h ts cands"
  by (simp add: available_paths_def list_ex_iff sorted_mount_tasks_def)

lemma str_split_no_sep: "c \<notin> set B \<Longrightarrow> str_split c B = [B]"
  by (induction B) auto

lemma str_split_first: "c \<notin> set A \<Longrightarrow> str_split c (A @ c # rest) = A # str_split c rest"
  by (induction A) (auto split: list.splits)

lemma update_mem: "(k, v) \<in> set (AList.update k v al)"
  by (induction al) auto

lemma final_env_tasks_PATH:
  assumes "mount_plan h c = Inr (ts, rw, h')"
    and "resolved_PATH h' (sorted_mount_tasks ts) = Inr pv"
  shows "(''PATH'', Some pv) \<in> set (final_env_tasks h c)"
  using assms by (simp add: final_env_tasks_def update_mem)

lemma create_bwrap_argv_PATH:
  assumes "create_bwrap_argv h c = Inr (gs, h')" and "environ h ''PATH'' = Some pv"
  shows "[''--setenv'', ''PATH'',
          join [os_pathsep]
            (available_paths h (sorted_mount_tasks (planned_mount_tasks h c)) (candidate_paths pv))]
         \<in> set gs"
proof -
  from create_bwrap_argv_Inr [OF assms(1)] obtain ts rw pv'
    where plan: "mount_plan h c = Inr (ts, rw, h')"
      and pv': "resolved_PATH h' (sorted_mount_tasks ts) = Inr pv'"
    by blast
  have "environ h' ''PATH'' = Some pv"
    using assms(2) by (simp add: mount_plan_environ [OF plan])
  with pv' have "pv' = join [os_pathsep]
      (available_paths h' (sorted_mount_tasks ts) (candidate_paths pv))"
    by (simp add: resolved_PATH_def)
  then have pv'_eq: "pv' = join [os_pathsep]
      (available_paths h (sorted_mount_tasks (planned_mount_tasks h c)) (candidate_paths pv))"
    by (simp add: available_paths_realpath [OF mount_plan_realpath [OF plan]]
        planned_mount_tasks_eq [OF plan])
  have "(''PATH'', Some pv') \<in> set (sort_key fst (final_env_tasks h c))"
    using final_env_tasks_PATH [OF plan pv'] by simp
  then have "[''--setenv'', ''PATH'', pv'] \<in> set (setenv_groups h' (final_env_tasks h c))"
    unfolding setenv_groups_def by (rule setenv_explicit)
  then have "[''--setenv'', ''PATH'', pv'] \<in> set gs"
    by (subst create_bwrap_argv_sections [OF assms(1)]) simp
  then show ?thesis
    by (simp add: pv'_eq)
qed

text \<open>
  Claim C1, as amended: a canonicalized candidate is kept if and only if it is contained
  (prefix comparison with a single trailing separator on both sides) under the target of
  some bind-type task of the mount plan, whether or not that task was dropped for a
  missing source; the joined result is the value of \<^verbatim>\<open>PATH\<close> in the returned argv.
\<close>

theorem search_path_containment:
  "(p \<in> set (available_paths h (sorted_mount_tasks ts) cands)
      \<longleftrightarrow> p \<in> set (map (realpath h) cands)
          \<and> (\<exists>t\<in>set ts. mode t \<in> {BIND_RO, BIND_RW, BIND_DEV}
                \<and> prefix (single_trailing_sep (target t)) (single_trailing_sep p)))
   \<and> (t \<in> set ts \<and> dropped h c t \<and> contained_in p t \<and> p \<in> set (map (realpath h) cands)
        \<longrightarrow> p \<in> set (available_paths h (sorted_mount_tasks ts) cands))
   \<and> (create_bwrap_argv h c = Inr (gs, h') \<and> environ h ''PATH'' = Some pv
        \<longrightarrow> [''--setenv'', ''PATH'',
              join [os_pathsep]
                (available_paths h (sorted_mount_tasks (planned_mount_tasks h c))
                   (candidate_paths pv))] \<in> set gs)"
proof (intro conjI impI)
  show "p \<in> set (available_paths h (sorted_mount_tasks ts) cands)
      \<longleftrightarrow> p \<in> set (map (realpath h) cands)
          \<and> (\<exists>t\<in>set ts. mode t \<in> {BIND_RO, BIND_RW, BIND_DEV}
                \<and> prefix (single_trailing_sep (target t)) (single_trailing_sep p))"
    by (auto simp: available_paths_sorted available_paths_iff contained_in_def)
  {
    assume "t \<in> set ts \<and> dropped h c t \<and> contained_in p t \<and> p \<in> set (map (realpath h) cands)"
    then show "p \<in> set (available_paths h (sorted_mount_tasks ts) cands)"
      by (auto simp: available_paths_sorted available_paths_iff)
  }
  {
    assume "create_bwrap_argv h c = Inr (gs, h') \<and> environ h ''PATH'' = Some pv"
    then show "[''--setenv'', ''PATH'',
              join [os_pathsep]
                (available_paths h (sorted_mount_tasks (planned_mount_tasks h c))
                   (candidate_paths pv))] \<in> set gs"
      by (blast intro: create_bwrap_argv_PATH)
  }
qed

text \<open>
  A candidate under a dropped task is kept: on the host without \<^verbatim>\<open>/lib32\<close> and with
  \<^verbatim>\<open>PATH=/lib32/bin:/opt/bin\<close>, the only task that contains \<^verbatim>\<open>/lib32/bin\<close> is the
  optional bind of \<^verbatim>\<open>/lib32\<close>, which is dropped (no group of the argv ends in
  \<^verbatim>\<open>/lib32\<close>), and \<^verbatim>\<open>/lib32/bin\<close> is in the resolved \<^verbatim>\<open>PATH\<close>.
\<close>

theorem dropped_mount_keeps_candidate_counterexample:
  "[''--setenv'', ''PATH'', ''/lib32/bin:/usr/lib/wine'']
      \<in> set (final_argv example_host example_config)
   \<and> filter (contained_in ''/lib32/bin'') (planned_mount_tasks example_host example_config)
      = [(task BIND_RO ''/lib32'')\<lparr>required := False\<rparr>]
   \<and> dropped example_host example_config ((task BIND_RO ''/lib32'')\<lparr>required := False\<rparr>)
   \<and> groups_at ''/lib32'' (final_argv example_host example_config) = []"
  by code_simp

theorem search_path_containment_witness:
  "''/lib32/bin'' \<in> set (available_paths example_host
        (sorted_mount_tasks (planned_mount_tasks example_host example_config))
        (candidate_paths ''/lib32/bin:/opt/bin''))
   \<and> ''/opt/bin'' \<notin> set (available_paths example_host
        (sorted_mount_tasks (planned_mount_tasks example_host example_config))
        (candidate_paths ''/lib32/bin:/opt/bin''))
   \<and> [''--setenv'', ''PATH'',
        join [os_pathsep] (available_paths example_host
          (sorted_mount_tasks (planned_mount_tasks example_host example_config))
          (candidate_paths ''/lib32/bin:/opt/bin''))]
      \<in> set (final_argv example_host example_config)"
proof -
  let ?t = "(task BIND_RO ''/lib32'')\<lparr>required := False\<rparr>"
  let ?ts = "planned_mount_tasks example_host example_config"
  let ?cands = "candidate_paths ''/lib32/bin:/opt/bin''"
  from example_run_plain obtain gs
    where gs: "create_bwrap_argv example_host example_config = Inr (gs, example_host)"
    by blast
  have ts: "?ts = baseline_mount_tasks ''/home/u'' @ [task TMPFS ''/home/u/.wine'']"
    by (rule planned_mount_tasks_eq [OF example_plan_plain])
  have t: "?t \<in> set ?ts"
    by (simp add: ts baseline_mount_tasks_def)
  have d: "dropped example_host example_config ?t"
    by (simp add: dropped_def missing_source_def source_of_def task_def example_host_def
        example_config_def)
  have c: "contained_in ''/lib32/bin'' ?t"
    by (simp add: contained_in_def single_trailing_sep_def rstrip_def os_sep_def task_def)
  have cands: "?cands = [''/lib32/bin'', ''/opt/bin'', ''/usr/lib/wine'']"
    by (simp add: candidate_paths_def os_pathsep_def)
  have r: "map (realpath example_host) ?cands = ?cands"
    by (simp add: example_host_def)
  have p: "environ example_host ''PATH'' = Some ''/lib32/bin:/opt/bin''"
    by (simp add: example_host_def)
  have n: "\<not> (\<exists>t\<in>set ?ts. mode t \<in> {BIND_RO, BIND_RW, BIND_DEV}
      \<and> prefix (single_trailing_sep (target t)) (single_trailing_sep ''/opt/bin''))"
    by (simp add: ts baseline_mount_tasks_def task_def single_trailing_sep_def rstrip_def
        os_sep_def)
  have pc: "''/lib32/bin'' \<in> set (map (realpath example_host) ?cands)"
    by (simp add: cands example_host_def)
  from search_path_containment [where p = "''/lib32/bin''" and h = example_host and ts = ?ts
      and cands = ?cands and t = ?t and c = example_config and gs = gs and h' = example_host
      and pv = "''/lib32/bin:/opt/bin''"]
    t d c pc gs p
  have 1: "''/lib32/bin'' \<in> set (available_paths example_host (sorted_mount_tasks ?ts) ?cands)"
    and 3: "[''--setenv'', ''PATH'',
        join [os_pathsep] (available_paths example_host (sorted_mount_tasks ?ts) ?cands)] \<in> set gs"
    by blast+
  from search_path_containment [where p = "''/opt/bin''" and h = example_host and ts = ?ts
      and cands = ?cands] n
  have 2: "''/opt/bin'' \<notin> set (available_paths example_host (sorted_mount_tasks ?ts) ?cands)"
    by blast
  from 1 2 3 final_argv_eq [OF gs] show ?thesis by simp
qed

lemma candidate_paths_two:
  assumes "CHR '':'' \<notin> set A" and "CHR '':'' \<notin> set B"
  shows "candidate_paths (A @ CHR '':'' # B) = [A, B, ''/usr/lib/wine'']"
  using assms by (simp add: candidate_paths_def os_pathsep_def str_split_first str_split_no_sep)

text \<open>
  Claim C6, as amended: the resolved list is the canonical form of the candidates that
  pass the containment test, in their original order; for a host search path \<open>[A, B]\<close>
  where the canonical form of \<open>A\<close> is under a bind target and that of \<open>B\<close> is not, the
  value is the canonical form of \<open>A\<close>, followed by that of the added candidate
  \<^verbatim>\<open>/usr/lib/wine\<close> exactly when it is under a bind target too.
\<close>

theorem search_path_order:
  "available_paths h ts cands
     = map (realpath h) (filter (\<lambda>p. list_ex (contained_in (realpath h p)) ts) cands)
   \<and> (CHR '':'' \<notin> set A \<and> CHR '':'' \<notin> set B \<and> environ h ''PATH'' = Some (A @ '':'' @ B)
        \<and> list_ex (contained_in (realpath h A)) ts
        \<and> \<not> list_ex (contained_in (realpath h B)) ts
      \<longrightarrow> resolved_PATH h ts
          = Inr (join '':''
              (realpath h A
               # (if list_ex (contained_in (realpath h ''/usr/lib/wine'')) ts
                  then [realpath h ''/usr/lib/wine''] else []))))"
proof (intro conjI impI)
  show "available_paths h ts cands
     = map (realpath h) (filter (\<lambda>p. list_ex (contained_in (realpath h p)) ts) cands)"
    by (rule available_paths_filter)
  assume a: "CHR '':'' \<notin> set A \<and> CHR '':'' \<notin> set B \<and> environ h ''PATH'' = Some (A @ '':'' @ B)
        \<and> list_ex (contained_in (realpath h A)) ts
        \<and> \<not> list_ex (contained_in (realpath h B)) ts"
  then have "candidate_paths (A @ CHR '':'' # B) = [A, B, ''/usr/lib/wine'']"
    by (simp add: candidate_paths_two)
  with a show "resolved_PATH h ts
          = Inr (join '':''
              (realpath h A
               # (if list_ex (contained_in (realpath h ''/usr/lib/wine'')) ts
                  then [realpath h ''/usr/lib/wine''] else [])))"
    by (simp add: resolved_PATH_def available_paths_filter os_pathsep_def)
qed

text \<open>
  The value need not be the canonical form of \<open>A\<close> alone: for the search path
  \<^verbatim>\<open>/usr:/opt\<close> and a plan whose only bind target is \<^verbatim>\<open>/usr\<close> it is
  \<^verbatim>\<open>/usr:/usr/lib/wine\<close>; and in a whole run with \<^verbatim>\<open>PATH=/usr/bin:/opt/bin\<close> it is
  \<^verbatim>\<open>/usr/bin:/usr/lib/wine\<close>.
\<close>

theorem synthetic_candidate_counterexample:
  "resolved_PATH (example_host\<lparr>environ := [''PATH'' \<mapsto> ''/usr:/opt'']\<rparr>)
      [task TMPFS ''/'', task BIND_RO ''/usr'']
     = Inr ''/usr:/usr/lib/wine''
   \<and> [''--setenv'', ''PATH'', ''/usr/bin:/usr/lib/wine'']
      \<in> set (final_argv (example_host\<lparr>environ := [''PATH'' \<mapsto> ''/usr/bin:/opt/bin'']\<rparr>)
                example_config)"
  by code_simp

theorem search_path_order_witness:
  "resolved_PATH (example_host\<lparr>environ := [''PATH'' \<mapsto> ''/opt/a:/opt/b'']\<rparr>)
      [task TMPFS ''/'', task BIND_RO ''/opt/a'']
     = Inr ''/opt/a''
   \<and> resolved_PATH (example_host\<lparr>environ := [''PATH'' \<mapsto> ''/usr:/opt'']\<rparr>)
      [task TMPFS ''/'', task BIND_RO ''/usr'']
     = Inr ''/usr:/usr/lib/wine''"
proof -
  let ?h1 = "example_host\<lparr>environ := [''PATH'' \<mapsto> ''/opt/a:/opt/b'']\<rparr>"
  let ?ts1 = "[task TMPFS ''/'', task BIND_RO ''/opt/a'']"
  let ?h2 = "example_host\<lparr>environ := [''PATH'' \<mapsto> ''/usr:/opt'']\<rparr>"
  let ?ts2 = "[task TMPFS ''/'', task BIND_RO ''/usr'']"
  have rp: "\<And>p. realpath example_host p = p"
    by (simp add: example_host_def)
  have c1: "list_ex (contained_in ''/opt/a'') ?ts1" "\<not> list_ex (contained_in ''/opt/b'') ?ts1"
    "\<not> list_ex (contained_in ''/usr/lib/wine'') ?ts1"
    by (simp_all add: contained_in_def task_def single_trailing_sep_def rstrip_def os_sep_def)
  have c2: "list_ex (contained_in ''/usr'') ?ts2" "\<not> list_ex (contained_in ''/opt'') ?ts2"
    "list_ex (contained_in ''/usr/lib/wine'') ?ts2"
    by (simp_all add: contained_in_def task_def single_trailing_sep_def rstrip_def os_sep_def)
  from search_path_order [where h = ?h1 and ts = ?ts1 and A = "''/opt/a''" and B = "''/opt/b''"] c1
  have 1: "resolved_PATH ?h1 ?ts1 = Inr ''/opt/a''"
    by (simp add: rp)
  from search_path_order [where h = ?h2 and ts = ?ts2 and A = "''/usr''" and B = "''/opt''"] c2
  have 2: "resolved_PATH ?h2 ?ts2 = Inr ''/usr:/usr/lib/wine''"
    by (simp add: rp)
  from 1 2 show ?thesis by simp
qed

section \<open>The setup wrapper\<close>

lemma run_winecfg_iff:
  assumes "mount_plan h c = Inr (ts, rw, h')"
  shows "run_winecfg h c \<longleftrightarrow>
      (x11 c \<noteq> NONE \<and> (configure c \<or> dotwine c = None))
      \<or> (\<exists>d p a. dotwine c = Some d \<and> parse_path_colon_access d = Inr (p, a) \<and> \<not> exists h p)"
  using assms
  by (auto simp: mount_plan_def run_winecfg_def dotwine_step_def Let_def
      split: sum.splits prod.splits option.splits if_splits)

lemma mount_plan_creates:
  assumes "mount_plan h c = Inr (ts, rw, h')"
    and "dotwine c = Some d" and "parse_path_colon_access d = Inr (p, a)" and "\<not> exists h p"
  shows "makedirs p h = Inr h'" and "exists h' p"
  using assms
  by (auto simp: mount_plan_def dotwine_step_def Let_def makedirs_def created_def
      split: sum.splits prod.splits option.splits if_splits)

lemma makedirs_Inl: "makedirs p h = Inl e \<Longrightarrow> e = OSError"
  by (auto simp: makedirs_def split: if_splits)

lemma create_bwrap_argv_makedirs_fails:
  assumes "dotwine c = Some d" and "parse_path_colon_access d = Inr (p, a)"
    and "\<not> exists h p" and "makedirs p h = Inl e"
  shows "create_bwrap_argv h c = Inl OSError"
proof -
  from assms(4) have "makedirs p h = Inl OSError"
    by (auto dest: makedirs_Inl)
  with assms(1-3) have "dotwine_step h c = Inl OSError"
    by (simp add: dotwine_step_def Let_def)
  then show ?thesis
    by (simp add: create_bwrap_argv_def mount_plan_def)
qed

lemma winecfg_in_wrappers:
  "winecfg_wrapper \<in> set (wrapper_groups c rw) \<longleftrightarrow> rw \<and> with_wine c"
  by (simp add: wrapper_groups_def winecfg_wrapper_def wineserver_wrapper_def
      second_try_wrapper_def)

text \<open>
  Claim C4, as amended: in a returned argv the wrappers stand between \<^verbatim>\<open>--\<close> and the
  inner command, and the \<^verbatim>\<open>winecfg\<close> wrapper is among them exactly when Wine is in use
  and either the display is enabled and (\<^verbatim>\<open>--configure\<close> was given or no \<^verbatim>\<open>--dotwine\<close>
  was given), or \<^verbatim>\<open>--dotwine\<close> names a path that does not exist on the host. For such a
  path \<^verbatim>\<open>os.makedirs\<close> is called: when the directory can be created, it exists
  afterwards and, with Wine in use, the wrapper is in the argv, display or not; when it
  cannot be created, no argv is returned, the \<^verbatim>\<open>OSError\<close> leaves \<^verbatim>\<open>main\<close>, and the run
  ends with exit status 1 with only the capability probe started.
\<close>

theorem winecfg_wrapper_included:
  "(create_bwrap_argv h c = Inr (gs, h')
     \<longrightarrow> (\<exists>pre. gs = pre @ [[''--'']] @ wrapper_groups c (run_winecfg h c) @ inner_groups c)
       \<and> (winecfg_wrapper \<in> set (wrapper_groups c (run_winecfg h c))
           \<longleftrightarrow> with_wine c
             \<and> ((x11 c \<noteq> NONE \<and> (configure c \<or> dotwine c = None))
                \<or> (\<exists>d p a. dotwine c = Some d \<and> parse_path_colon_access d = Inr (p, a)
                     \<and> \<not> exists h p)))
       \<and> (dotwine c = Some d \<and> parse_path_colon_access d = Inr (p, a) \<and> \<not> exists h p
           \<longrightarrow> makedirs p h = Inr h' \<and> exists h' p
             \<and> (with_wine c \<longrightarrow> winecfg_wrapper \<in> set gs)))
   \<and> (dotwine c = Some d \<and> parse_path_colon_access d = Inr (p, a) \<and> \<not> exists h p
        \<and> makedirs p h = Inl e
      \<longrightarrow> create_bwrap_argv h c = Inl OSError
        \<and> (\<forall>c0. select_display h c0 = c
              \<longrightarrow> exit_code (main h c0) = 1 \<and> calls (main h c0) = [bwrap_probe]))"
proof (intro conjI impI allI)
  assume run: "create_bwrap_argv h c = Inr (gs, h')"
  from create_bwrap_argv_Inr [OF run] obtain ts rw
    where plan: "mount_plan h c = Inr (ts, rw, h')" by blast
  note sec = create_bwrap_argv_sections [OF run]
  show "\<exists>pre. gs = pre @ [[''--'']] @ wrapper_groups c (run_winecfg h c) @ inner_groups c"
    by (subst sec) (metis append.assoc)
  show 2: "winecfg_wrapper \<in> set (wrapper_groups c (run_winecfg h c))
        \<longleftrightarrow> with_wine c
          \<and> ((x11 c \<noteq> NONE \<and> (configure c \<or> dotwine c = None))
             \<or> (\<exists>d p a. dotwine c = Some d \<and> parse_path_colon_access d = Inr (p, a)
                  \<and> \<not> exists h p))"
    by (simp add: winecfg_in_wrappers run_winecfg_iff [OF plan] conj_commute)
  assume a: "dotwine c = Some d \<and> parse_path_colon_access d = Inr (p, a) \<and> \<not> exists h p"
  then show "makedirs p h = Inr h'" and "exists h' p"
    using mount_plan_creates [OF plan, of d p a] by simp_all
  assume "with_wine c"
  with a 2 have "winecfg_wrapper \<in> set (wrapper_groups c (run_winecfg h c))" by blast
  then show "winecfg_wrapper \<in> set gs"
    by (subst sec) simp
next
  assume a: "dotwine c = Some d \<and> parse_path_colon_access d = Inr (p, a) \<and> \<not> exists h p
        \<and> makedirs p h = Inl e"
  then show e: "create_bwrap_argv h c = Inl OSError"
    by (blast intro: create_bwrap_argv_makedirs_fails)
  fix c0 assume "select_display h c0 = c"
  with e have "create_bwrap_argv h (select_display h c0) = Inl OSError" by simp
  from main_exception [OF this]
  show "exit_code (main h c0) = 1" and "calls (main h c0) = [bwrap_probe]"
    by (simp_all add: exit_status_def)
qed

text \<open>
  The wrapper does not follow the display alone: with a display and \<^verbatim>\<open>--configure\<close> but
  \<^verbatim>\<open>--no-wine\<close> it is absent; without a display but with \<^verbatim>\<open>--dotwine\<close> on a missing
  path it is present.
\<close>

theorem winecfg_wrapper_counterexample:
  "x11 (example_config\<lparr>x11 := XEPHYR, configure := True, with_wine := False\<rparr>) \<noteq> NONE
   \<and> configure (example_config\<lparr>x11 := XEPHYR, configure := True, with_wine := False\<rparr>)
   \<and> \<not> isl (create_bwrap_argv example_host
             (example_config\<lparr>x11 := XEPHYR, configure := True, with_wine := False\<rparr>))
   \<and> winecfg_wrapper \<notin> set (final_argv example_host
             (example_config\<lparr>x11 := XEPHYR, configure := True, with_wine := False\<rparr>))
   \<and> x11 (example_config\<lparr>dotwine := Some ''/missing/path:rw''\<rparr>) = NONE
   \<and> winecfg_wrapper \<in> set (final_argv example_host
             (example_config\<lparr>dotwine := Some ''/missing/path:rw''\<rparr>))"
  by code_simp

lemma example_plan_dotwine:
  "mount_plan example_host (example_config\<lparr>dotwine := Some ''/missing/path:rw''\<rparr>)
   = Inr (baseline_mount_tasks ''/home/u''
            @ [(task BIND_RW ''/home/u/.wine'')\<lparr>source := Some ''/missing/path''\<rparr>],
          True, created ''/missing/path'' example_host)"
  using parse_rw [of "''/missing/path''"]
  by (simp add: mount_plan_def dotwine_step_def makedirs_def example_config_def example_host_def
      network_mount_tasks_def pulseaudio_mount_tasks_def x11_mount_tasks_def
      program_mount_tasks_def)

lemma example_run_dotwine:
  "\<exists>gs. create_bwrap_argv example_host (example_config\<lparr>dotwine := Some ''/missing/path:rw''\<rparr>)
      = Inr (gs, created ''/missing/path'' example_host)"
proof (rule create_bwrap_argv_success [OF example_plan_dotwine])
  show "\<forall>t\<in>set (baseline_mount_tasks ''/home/u''
            @ [(task BIND_RW ''/home/u/.wine'')\<lparr>source := Some ''/missing/path''\<rparr>]).
      \<not> aborts (created ''/missing/path'' example_host)
          (example_config\<lparr>dotwine := Some ''/missing/path:rw''\<rparr>) t"
    by (simp add: baseline_mount_tasks_def aborts_def missing_source_def source_of_def
        task_def example_host_def created_def)
  show "environ (created ''/missing/path'' example_host) ''PATH'' = Some ''/lib32/bin:/opt/bin''"
    by (simp add: example_host_def created_def)
qed

theorem winecfg_wrapper_included_witness:
  "\<not> exists example_host ''/missing/path''
   \<and> exists (created ''/missing/path'' example_host) ''/missing/path''
   \<and> winecfg_wrapper \<in> set (final_argv example_host
        (example_config\<lparr>dotwine := Some ''/missing/path:rw''\<rparr>))
   \<and> create_bwrap_argv example_host (example_config\<lparr>dotwine := Some '':rw''\<rparr>) = Inl OSError
   \<and> exit_code (main example_host (example_config\<lparr>dotwine := Some ''/etc/passwd/profile:rw''\<rparr>))
      = 1
   \<and> calls (main example_host (example_config\<lparr>dotwine := Some ''/etc/passwd/profile:rw''\<rparr>))
      = [bwrap_probe]"
proof -
  let ?c = "example_config\<lparr>dotwine := Some ''/missing/path:rw''\<rparr>"
  let ?ce = "example_config\<lparr>dotwine := Some '':rw''\<rparr>"
  let ?cf = "example_config\<lparr>dotwine := Some ''/etc/passwd/profile:rw''\<rparr>"
  from example_run_dotwine obtain gs
    where gs: "create_bwrap_argv example_host ?c = Inr (gs, created ''/missing/path'' example_host)"
    by blast
  have m: "\<not> exists example_host ''/missing/path''" "\<not> exists example_host []"
    "\<not> exists example_host ''/etc/passwd/profile''"
    by (simp_all add: example_host_def)
  have w: "with_wine ?c" "dotwine ?c = Some ''/missing/path:rw''"
    by (simp_all add: example_config_def)
  from winecfg_wrapper_included [where h = example_host and c = ?c and gs = gs
      and h' = "created ''/missing/path'' example_host"
      and d = "''/missing/path:rw''" and p = "''/missing/path''" and a = READ_WRITE]
    gs parse_rw [of "''/missing/path''"] m w
  have 1: "exists (created ''/missing/path'' example_host) ''/missing/path''
      \<and> winecfg_wrapper \<in> set gs"
    by simp
  have fe: "makedirs [] example_host = Inl OSError"
    by (simp add: makedirs_def)
  from winecfg_wrapper_included [where h = example_host and c = ?ce
      and d = "'':rw''" and p = "[]" and a = READ_WRITE and e = OSError]
    parse_rw [of "[]"] m fe
  have 2: "create_bwrap_argv example_host ?ce = Inl OSError"
    by simp
  have ff: "makedirs ''/etc/passwd/profile'' example_host = Inl OSError"
    by (simp add: makedirs_def example_host_def)
  have sd: "select_display example_host ?cf = ?cf"
    by (simp add: select_display_def example_config_def)
  from winecfg_wrapper_included [where h = example_host and c = ?cf
      and d = "''/etc/passwd/profile:rw''" and p = "''/etc/passwd/profile''"
      and a = READ_WRITE and e = OSError]
    parse_rw [of "''/etc/passwd/profile''"] m ff sd
  have 3: "exit_code (main example_host ?cf) = 1 \<and> calls (main example_host ?cf) = [bwrap_probe]"
    by simp
  from 1 2 3 m final_argv_eq [OF gs] show ?thesis by simp
qed

end
